theory Spec2Isabelle
  imports Complex_Main "HOL-Library.Word" "HOL-Library.Sublist"
begin

section \<open>The spectrum analyzer (src/frontend/audio/spectrumAnalyzer.ts)\<close>

text \<open>
  The bytes of a \<^verbatim>\<open>Uint8Array\<close> are 8-bit words; indices and millisecond timestamps
  are integers. A finite JavaScript number is the real it denotes. The smoothing step
  uses only operations that IEEE 754 rounds correctly, and it is modelled with their
  rounding: every product, sum and difference is rounded to a double, and the store into
  the \<^verbatim>\<open>Float32Array\<close> to single precision. The computations of the bars and of the
  axis go through \<^verbatim>\<open>Math.log10\<close> and \<^verbatim>\<open>Math.pow\<close>, whose rounding the language
  leaves to the implementation: they are modelled in exact real arithmetic. \<^verbatim>\<open>NaN\<close>
  and the infinities are not modelled.
\<close>

subsection \<open>Data\<close>

text \<open>
  What the code reads from a Web Audio analyser node: \<^verbatim>\<open>analyser.fftSize\<close>,
  \<^verbatim>\<open>analyser.context.sampleRate\<close>, \<^verbatim>\<open>analyser.frequencyBinCount\<close>, and the
  bytes that \<^verbatim>\<open>analyser.getByteFrequencyData\<close> writes at each index of the array
  it is given.
\<close>

record Analyser =
  fftSize :: nat
  sampleRate :: real
  frequencyBinCount :: nat
  byteFrequencyData :: "nat \<Rightarrow> 8 word"

text \<open>The fields of the class \<^verbatim>\<open>SpectrumAnalyzer\<close>. A callback is named by a number.\<close>

record SpectrumAnalyzer =
  frequencyData :: "8 word list"
  smoothedFrequencyData :: "real list"
  animationFrame :: "nat option"
  isAnalyzing :: bool
  lastUpdateTime :: int
  actualFFTSize :: nat
  actualSampleRate :: real
  onUpdateCallback :: "nat option"

record SpectrumBar =
  x :: real
  width :: real
  height :: real
  frequency :: real
  amplitude :: real

text \<open>
  What one call reads from outside the object: \<^verbatim>\<open>Date.now()\<close>, the list returned by
  \<^verbatim>\<open>AudioAnalyser.getAnalysers()\<close> and the handle that \<^verbatim>\<open>requestAnimationFrame\<close>
  returns.
\<close>

record Env =
  dateNow :: int
  getAnalysers :: "Analyser list"
  rafHandle :: nat

text \<open>The calls a step makes to the outside, in order.\<close>

datatype event =
  RequestAnimationFrame
  | CancelAnimationFrame nat
  | GetByteFrequencyData
  | Callback nat

subsection \<open>IEEE 754 rounding\<close>

definition pow2 :: "int \<Rightarrow> real" where
  "pow2 k = (if 0 \<le> k then 2 ^ nat k else 1 / 2 ^ nat (- k))"

text \<open>The nearest integer, the even one of two that are equally near.\<close>

definition round_half_even :: "real \<Rightarrow> int" where
  "round_half_even q =
     (let f = \<lfloor>q\<rfloor>; r = q - real_of_int f
      in if r < 1 / 2 then f
         else if 1 / 2 < r then f + 1
         else if even f then f else f + 1)"

text \<open>
  Rounding to the nearest number of a binary format with \<open>p\<close> significant bits and least
  normal exponent \<open>emin\<close>, ties to even: the numbers of the format near \<open>v\<close> are the
  multiples of \<open>2 ^ (e - (p - 1))\<close>, where \<open>e\<close> is the binary exponent of \<open>v\<close>, or
  \<open>emin\<close> for a subnormal one. Overflow to infinity is not modelled.
\<close>

definition ieee_round :: "nat \<Rightarrow> int \<Rightarrow> real \<Rightarrow> real" where
  "ieee_round p emin v =
     (if v = 0 then 0
      else
        let e = max emin \<lfloor>log 2 \<bar>v\<bar>\<rfloor>;
            ulp = pow2 (e - (int p - 1))
        in real_of_int (round_half_even (v / ulp)) * ulp)"

text \<open>The result of an arithmetic operation on numbers, which are doubles, and the
  conversion of a number stored into a \<^verbatim>\<open>Float32Array\<close>.\<close>

definition to_double :: "real \<Rightarrow> real" where "to_double v = ieee_round 53 (- 1022) v"
definition fround :: "real \<Rightarrow> real" where "fround v = ieee_round 24 (- 126) v"

subsection \<open>Constants\<close>

text \<open>The literal \<^verbatim>\<open>0.15\<close> denotes the double nearest to 0.15; the other constants are
  doubles as they are written.\<close>

definition updateInterval :: int where "updateInterval = 50"
definition smoothingFactor :: real where "smoothingFactor = to_double 0.15"
definition numBars :: nat where "numBars = 100"
definition minFreq :: real where "minFreq = 20"
definition maxFreq :: real where "maxFreq = 20000"

text \<open>\<^verbatim>\<open>Math.log10\<close>, \<^verbatim>\<open>Math.pow(10, y)\<close> and \<^verbatim>\<open>Math.round\<close> (halves go up).\<close>

definition log10 :: "real \<Rightarrow> real" where "log10 v = log 10 v"
definition pow10 :: "real \<Rightarrow> real" where "pow10 y = 10 powr y"
definition math_round :: "real \<Rightarrow> int" where "math_round v = \<lfloor>v + 1 / 2\<rfloor>"

text \<open>\<^verbatim>\<open>arr[i] || 0\<close>: a read outside the array is \<^verbatim>\<open>undefined\<close>, which \<^verbatim>\<open>||\<close> turns into 0.\<close>

definition at_or_zero :: "real list \<Rightarrow> int \<Rightarrow> real" where
  "at_or_zero arr i = (if 0 \<le> i \<and> i < int (length arr) then arr ! nat i else 0)"

subsection \<open>Construction, start and stop\<close>

definition updateAnalyserProperties :: "Analyser list \<Rightarrow> SpectrumAnalyzer \<Rightarrow> SpectrumAnalyzer" where
  "updateAnalyserProperties analysers s =
     (case analysers of
        [] \<Rightarrow> s
      | analyser # _ \<Rightarrow>
          let s1 = s\<lparr>actualFFTSize := fftSize analyser, actualSampleRate := sampleRate analyser\<rparr>;
              actualBinCount = frequencyBinCount analyser
          in if length (frequencyData s1) \<noteq> actualBinCount
             then s1\<lparr>frequencyData := replicate actualBinCount 0,
                     smoothedFrequencyData := replicate actualBinCount 0\<rparr>
             else s1)"

definition constructor :: "Analyser list \<Rightarrow> SpectrumAnalyzer" where
  "constructor analysers =
     updateAnalyserProperties analysers
       \<lparr>frequencyData = replicate 128 0, smoothedFrequencyData = replicate 128 0,
        animationFrame = None, isAnalyzing = False, lastUpdateTime = 0,
        actualFFTSize = 256, actualSampleRate = 48000, onUpdateCallback = None\<rparr>"

definition getFrequencyData :: "SpectrumAnalyzer \<Rightarrow> real list" where
  "getFrequencyData s = smoothedFrequencyData s"

subsection \<open>The update step\<close>

text \<open>The two loops of \<^verbatim>\<open>updateFrequencyData\<close>; a typed array ignores a write out of range,
  as \<open>list_update\<close> does.\<close>

definition copy_loop :: "8 word list \<Rightarrow> 8 word list \<Rightarrow> 8 word list" where
  "copy_loop tempData fd = fold (\<lambda>i a. a[i := tempData ! i]) [0..<length tempData] fd"

definition smooth_loop :: "8 word list \<Rightarrow> real list \<Rightarrow> real list" where
  "smooth_loop fd sm =
     fold (\<lambda>i a. a[i := fround (to_double
                           (to_double (smoothingFactor * real (unat (fd ! i)))
                            + to_double (to_double (1 - smoothingFactor) * a ! i)))])
       [0..<length fd] sm"

definition updateFrequencyData :: "Env \<Rightarrow> SpectrumAnalyzer \<Rightarrow> event list \<times> SpectrumAnalyzer" where
  "updateFrequencyData env s =
     (if \<not> isAnalyzing s then ([], s)
      else
        let currentTime = dateNow env in
        if currentTime - lastUpdateTime s < updateInterval
        then ([RequestAnimationFrame], s\<lparr>animationFrame := Some (rafHandle env)\<rparr>)
        else
          let s1 = s\<lparr>lastUpdateTime := currentTime\<rparr> in
          case getAnalysers env of
            [] \<Rightarrow> ([RequestAnimationFrame], s1\<lparr>animationFrame := Some (rafHandle env)\<rparr>)
          | analyser # _ \<Rightarrow>
              let tempData = map (byteFrequencyData analyser) [0..<frequencyBinCount analyser];
                  s2 = (if length (frequencyData s1) \<noteq> length tempData
                        then s1\<lparr>frequencyData := replicate (length tempData) 0,
                                smoothedFrequencyData := replicate (length tempData) 0\<rparr>
                        else s1);
                  s3 = s2\<lparr>frequencyData := copy_loop tempData (frequencyData s2)\<rparr>;
                  s4 = s3\<lparr>smoothedFrequencyData :=
                            smooth_loop (frequencyData s3) (smoothedFrequencyData s3)\<rparr>;
                  called = (case onUpdateCallback s4 of None \<Rightarrow> [] | Some c \<Rightarrow> [Callback c])
              in (GetByteFrequencyData # called @ [RequestAnimationFrame],
                  s4\<lparr>animationFrame := Some (rafHandle env)\<rparr>))"

definition start :: "nat option \<Rightarrow> Env \<Rightarrow> SpectrumAnalyzer \<Rightarrow> event list \<times> SpectrumAnalyzer" where
  "start onUpdate env s =
     (if isAnalyzing s then ([], s)
      else
        let s1 = updateAnalyserProperties (getAnalysers env) s;
            s2 = s1\<lparr>onUpdateCallback := onUpdate, isAnalyzing := True\<rparr>
        in updateFrequencyData env s2)"

text \<open>\<^verbatim>\<open>if (this.animationFrame)\<close> is false for \<^verbatim>\<open>null\<close> and for the handle 0.\<close>

definition stop :: "SpectrumAnalyzer \<Rightarrow> event list \<times> SpectrumAnalyzer" where
  "stop s =
     (let s1 = s\<lparr>isAnalyzing := False\<rparr>;
          (evs, s2) = (case animationFrame s1 of
                         None \<Rightarrow> ([], s1)
                       | Some h \<Rightarrow> if h \<noteq> 0
                                  then ([CancelAnimationFrame h], s1\<lparr>animationFrame := None\<rparr>)
                                  else ([], s1))
      in (evs, s2\<lparr>onUpdateCallback := None\<rparr>))"

definition dispose :: "SpectrumAnalyzer \<Rightarrow> event list \<times> SpectrumAnalyzer" where
  "dispose s =
     (let (evs, s1) = stop s
      in (evs, s1\<lparr>frequencyData := replicate (length (frequencyData s1)) 0,
                   smoothedFrequencyData := replicate (length (smoothedFrequencyData s1)) 0\<rparr>))"

subsection \<open>Frequency lookup\<close>

definition frequencyToBin :: "Analyser list \<Rightarrow> SpectrumAnalyzer \<Rightarrow> real \<Rightarrow> int" where
  "frequencyToBin analysers s freq =
     (case analysers of
        analyser # _ \<Rightarrow> math_round ((freq * real (fftSize analyser)) / sampleRate analyser)
      | [] \<Rightarrow> math_round ((freq * real (actualFFTSize s)) / actualSampleRate s))"

definition getFrequencyAmplitude :: "Analyser list \<Rightarrow> SpectrumAnalyzer \<Rightarrow> real \<Rightarrow> real" where
  "getFrequencyAmplitude analysers s freq =
     (let binIndex = frequencyToBin analysers s freq;
          maxBin = int (length (smoothedFrequencyData s)) - 1
      in if binIndex \<le> 0 then at_or_zero (smoothedFrequencyData s) 0
         else if binIndex \<ge> maxBin then at_or_zero (smoothedFrequencyData s) maxBin
         else
           let lowerBin = \<lfloor>real_of_int binIndex\<rfloor>;
               upperBin = \<lceil>real_of_int binIndex\<rceil>;
               fraction = real_of_int binIndex - real_of_int lowerBin;
               lowerValue = at_or_zero (smoothedFrequencyData s) lowerBin;
               upperValue = at_or_zero (smoothedFrequencyData s) upperBin
           in lowerValue + (upperValue - lowerValue) * fraction)"

subsection \<open>Logarithmic frequency axis\<close>

definition frequencyToX :: "real \<Rightarrow> real \<Rightarrow> real" where
  "frequencyToX freq canvasWidth =
     (let logMin = log10 minFreq;
          logMax = log10 maxFreq;
          logFreq = log10 freq
      in ((logFreq - logMin) / (logMax - logMin)) * canvasWidth)"

definition xToFrequency :: "real \<Rightarrow> real \<Rightarrow> real" where
  "xToFrequency xpos canvasWidth =
     (let logMin = log10 minFreq;
          logMax = log10 maxFreq;
          logFreq = logMin + (xpos / canvasWidth) * (logMax - logMin)
      in pow10 logFreq)"

subsection \<open>Spectrum bars\<close>

text \<open>The \<^verbatim>\<open>for\<close> loop of \<^verbatim>\<open>getAveragedFrequencyAmplitude\<close>, from \<open>bin\<close> up to
  \<open>endBin\<close>, carrying \<open>weightedSum\<close> and \<open>totalWeight\<close>.\<close>

function weighted_loop ::
  "real list \<Rightarrow> real \<Rightarrow> real \<Rightarrow> real \<Rightarrow> int \<Rightarrow> int \<Rightarrow> int \<Rightarrow> real \<times> real \<Rightarrow> real \<times> real" where
  "weighted_loop sm startFreq endFreq frequencyResolution totalBins endBin bin (weightedSum, totalWeight) =
     (if bin \<le> endBin then
        (if bin \<ge> totalBins then (weightedSum, totalWeight)
         else
           let binStartFreq = real_of_int bin * frequencyResolution;
               binEndFreq = (real_of_int bin + 1) * frequencyResolution;
               overlapStart = max startFreq binStartFreq;
               overlapEnd = min endFreq binEndFreq;
               overlapAmount = max 0 (overlapEnd - overlapStart)
           in if overlapAmount > 0
              then
                let weight = overlapAmount / frequencyResolution;
                    binValue = at_or_zero sm bin
                in weighted_loop sm startFreq endFreq frequencyResolution totalBins endBin (bin + 1)
                     (weightedSum + binValue * weight, totalWeight + weight)
              else weighted_loop sm startFreq endFreq frequencyResolution totalBins endBin (bin + 1)
                     (weightedSum, totalWeight))
      else (weightedSum, totalWeight))"
  by pat_completeness auto
termination
  by (relation "measure (\<lambda>(sm, sf, ef, res, tb, endBin, bin, acc). nat (endBin + 1 - bin))") auto

declare weighted_loop.simps [simp del]

definition getAveragedFrequencyAmplitude ::
  "SpectrumAnalyzer \<Rightarrow> real \<Rightarrow> real \<Rightarrow> real \<Rightarrow> int \<Rightarrow> real" where
  "getAveragedFrequencyAmplitude s startFreq endFreq frequencyResolution totalBins =
     (let startBinFloat = startFreq / frequencyResolution;
          endBinFloat = endFreq / frequencyResolution;
          startBin = max 0 \<lfloor>startBinFloat\<rfloor>;
          endBin = min (totalBins - 1) \<lceil>endBinFloat\<rceil>
      in if startBin = endBin
         then
           (if startBin < totalBins - 1
            then
              let fraction = startBinFloat - real_of_int startBin;
                  currentValue = at_or_zero (smoothedFrequencyData s) startBin;
                  nextValue = at_or_zero (smoothedFrequencyData s) (startBin + 1)
              in currentValue + (nextValue - currentValue) * fraction
            else at_or_zero (smoothedFrequencyData s) startBin)
         else
           let (weightedSum, totalWeight) =
                 weighted_loop (smoothedFrequencyData s) startFreq endFreq frequencyResolution
                   totalBins endBin startBin (0, 0)
           in if totalWeight > 0 then weightedSum / totalWeight else 0)"

text \<open>The three values \<^verbatim>\<open>generateSpectrumBars\<close> takes from the first analyser, or from
  the stored fields when there is none: \<open>(maxDisplayFreq, sampleRate, fftSize)\<close>.\<close>

definition displayParams :: "Analyser list \<Rightarrow> SpectrumAnalyzer \<Rightarrow> real \<times> real \<times> nat" where
  "displayParams analysers s =
     (case analysers of
        [] \<Rightarrow> (maxFreq, actualSampleRate s, actualFFTSize s)
      | analyser # _ \<Rightarrow>
          (min maxFreq (sampleRate analyser / 2), sampleRate analyser, fftSize analyser))"

text \<open>The body of the loop over the bars, for bar \<open>i\<close>.\<close>

definition spectrumBar ::
  "SpectrumAnalyzer \<Rightarrow> real \<Rightarrow> real \<Rightarrow> real \<Rightarrow> real \<Rightarrow> nat \<Rightarrow> SpectrumBar" where
  "spectrumBar s canvasHeight barWidth maxDisplayFreq frequencyResolution i =
     (let totalBins = int (length (smoothedFrequencyData s));
          logMin = log10 minFreq;
          logMax = log10 maxDisplayFreq;
          xi = real i * barWidth;
          logProgress = real i / real numBars;
          logFreq = logMin + logProgress * (logMax - logMin);
          freq = pow10 logFreq;
          nextLogProgress = (real i + 1) / real numBars;
          nextLogFreq = logMin + nextLogProgress * (logMax - logMin);
          nextFrequency = (if i = numBars - 1 then maxDisplayFreq else pow10 nextLogFreq);
          amp = getAveragedFrequencyAmplitude s freq nextFrequency frequencyResolution totalBins;
          normalizedAmplitude = amp / 255;
          logAmplitude = (if normalizedAmplitude > 0 then log10 (normalizedAmplitude * 9 + 1) else 0);
          h = logAmplitude * canvasHeight * 0.9
      in \<lparr>x = xi, width = barWidth - 1, height = max 0 h, frequency = freq,
          amplitude = normalizedAmplitude\<rparr>)"

definition generateSpectrumBars ::
  "Analyser list \<Rightarrow> SpectrumAnalyzer \<Rightarrow> real \<Rightarrow> real \<Rightarrow> SpectrumBar list" where
  "generateSpectrumBars analysers s canvasWidth canvasHeight =
     (let barWidth = canvasWidth / real numBars;
          (maxDisplayFreq, sampleRate', fftSize') = displayParams analysers s;
          frequencyResolution = sampleRate' / real fftSize'
      in map (spectrumBar s canvasHeight barWidth maxDisplayFreq frequencyResolution) [0..<numBars])"

subsection \<open>Runs of the analyzer\<close>

text \<open>The ways the state of the object is changed: the public \<^verbatim>\<open>start\<close>, \<^verbatim>\<open>stop\<close>
  and \<^verbatim>\<open>dispose\<close>, and the animation-frame callback, which calls
  \<^verbatim>\<open>updateFrequencyData\<close>.\<close>

datatype action = Start "nat option" | Stop | Dispose | Frame

fun perform :: "action \<Rightarrow> Env \<Rightarrow> SpectrumAnalyzer \<Rightarrow> event list \<times> SpectrumAnalyzer" where
  "perform (Start onUpdate) env s = start onUpdate env s"
| "perform Stop env s = stop s"
| "perform Dispose env s = dispose s"
| "perform Frame env s = updateFrequencyData env s"

text \<open>A run records, for each call, the clock reading at the call and the events of the call.\<close>

fun run :: "(action \<times> Env) list \<Rightarrow> SpectrumAnalyzer \<Rightarrow> (int \<times> event list) list" where
  "run [] s = []"
| "run ((a, env) # rest) s =
     (case perform a env s of (evs, s') \<Rightarrow> (dateNow env, evs) # run rest s')"

definition sample_times :: "(int \<times> event list) list \<Rightarrow> int list" where
  "sample_times tr = map fst (filter (\<lambda>(t, evs). GetByteFrequencyData \<in> set evs) tr)"

text \<open>Both arrays are allocated together, with one length.\<close>

definition same_length :: "SpectrumAnalyzer \<Rightarrow> bool" where
  "same_length s \<longleftrightarrow> length (frequencyData s) = length (smoothedFrequencyData s)"

subsection \<open>The claims' own words\<close>

text \<open>The smoothing formula, 0.15 times the sample plus 1 - 0.15 times the previous value,
  as the doubles of the language evaluate it and the single-precision array stores it.\<close>

definition rounded_smoothing :: "real \<Rightarrow> real \<Rightarrow> real" where
  "rounded_smoothing sample previous =
     fround (to_double (to_double (to_double 0.15 * sample)
                        + to_double (to_double (1 - to_double 0.15) * previous)))"

text \<open>A smoothed value from 0 up to the greatest single-precision number below 255.\<close>

definition below_255 :: "real \<Rightarrow> bool" where
  "below_255 v \<longleftrightarrow> 0 \<le> v \<and> v \<le> 255 - 1 / 65536"

text \<open>The length of the part of the band of bin \<open>b\<close>, from \<open>b * res\<close> to \<open>(b + 1) * res\<close>,
  that lies between the frequencies \<open>lo\<close> and \<open>hi\<close>.\<close>

definition overlap :: "real \<Rightarrow> real \<Rightarrow> real \<Rightarrow> int \<Rightarrow> real" where
  "overlap lo hi res b =
     max 0 (min hi ((real_of_int b + 1) * res) - max lo (real_of_int b * res))"

text \<open>The average of the bin values, each weighted by its overlap with the range from
  \<open>lo\<close> to \<open>hi\<close>; 0 when no bin overlaps the range.\<close>

definition overlap_weighted_average :: "real list \<Rightarrow> real \<Rightarrow> real \<Rightarrow> real \<Rightarrow> real" where
  "overlap_weighted_average sm lo hi res =
     (let total = (\<Sum>b<length sm. overlap lo hi res (int b))
      in if total > 0
         then (\<Sum>b<length sm. sm ! b * overlap lo hi res (int b)) / total
         else 0)"

text \<open>The frequency of bar \<open>i\<close> on the logarithmic scale from 20 Hz to \<open>maxDisplayFreq\<close>.\<close>

definition bar_frequency :: "real \<Rightarrow> nat \<Rightarrow> real" where
  "bar_frequency maxDisplayFreq i =
     10 powr (log 10 20 + (real i / 100) * (log 10 maxDisplayFreq - log 10 20))"

text \<open>The highest frequency shown: 20000 Hz, or half the sample rate of the analyser when
  that is less. The width of a bin in Hz: the sample rate over the FFT size.\<close>

definition max_display_freq :: "Analyser list \<Rightarrow> real" where
  "max_display_freq analysers =
     (case analysers of
        [] \<Rightarrow> 20000
      | analyser # _ \<Rightarrow> min 20000 (sampleRate analyser / 2))"

definition frequency_resolution :: "Analyser list \<Rightarrow> SpectrumAnalyzer \<Rightarrow> real" where
  "frequency_resolution analysers s =
     (case analysers of
        [] \<Rightarrow> actualSampleRate s / real (actualFFTSize s)
      | analyser # _ \<Rightarrow> sampleRate analyser / real (fftSize analyser))"

text \<open>The sample rate and the FFT size that the lookups use, from the first analyser or
  else from the stored fields, are positive.\<close>

definition positive_rates :: "Analyser list \<Rightarrow> SpectrumAnalyzer \<Rightarrow> bool" where
  "positive_rates analysers s =
     (case analysers of
        analyser # _ \<Rightarrow> 0 < sampleRate analyser \<and> 0 < fftSize analyser
      | [] \<Rightarrow> 0 < actualSampleRate s \<and> 0 < actualFFTSize s)"

text \<open>The nearest-bin lookup: the smoothed value at the rounded bin index, clamped into
  the array.\<close>

definition nearest_bin_lookup :: "real list \<Rightarrow> real \<Rightarrow> nat \<Rightarrow> real \<Rightarrow> real" where
  "nearest_bin_lookup sm freq fft rate =
     sm ! nat (max 0 (min (int (length sm) - 1) (math_round (freq * real fft / rate))))"

section \<open>The main process: responses to the renderer, error log and screen capture\<close>

subsection \<open>Error log\<close>

record ErrorLog =
  time :: int
  os :: string
  version :: string
  type :: string
  source :: string
  message :: string
  stack :: "string option"
  dev :: bool

text \<open>A thrown \<^verbatim>\<open>Error\<close>: its message and, when present, its stack.\<close>

record Error =
  err_message :: string
  err_stack :: "string option"

text \<open>What the main process reads from outside: \<^verbatim>\<open>isProd\<close>, \<^verbatim>\<open>new Date()\<close>,
  \<^verbatim>\<open>process.platform\<close> and the result of \<^verbatim>\<open>getVersion()\<close>.\<close>

record MainEnv =
  isProd :: bool
  newDate :: int
  platform :: string
  getVersion :: string

datatype log_key = Key_main | Key_renderer | Key_request

text \<open>The object \<^verbatim>\<open>error_log.store\<close>: a list of entries under each key that is present.\<close>

type_synonym error_store = "log_key \<rightharpoonup> ErrorLog list"

definition maxLogLength :: nat where "maxLogLength = 250"

definition logError :: "MainEnv \<Rightarrow> ErrorLog \<Rightarrow> log_key \<Rightarrow> error_store \<Rightarrow> error_store" where
  "logError env log' key storedLog =
     (let log1 = (if \<not> isProd env then log'\<lparr>dev := True\<rparr> else log');
          previousLog = (case storedLog key of None \<Rightarrow> [] | Some l \<Rightarrow> l);
          pushed = previousLog @ [log1];
          sliced = (if length pushed > maxLogLength
                    then drop (length pushed - maxLogLength) pushed else pushed)
      in if length sliced = 0 then storedLog else storedLog(key \<mapsto> sliced))"

text \<open>The handler of \<^verbatim>\<open>Main.LOG_ERROR\<close> calls \<^verbatim>\<open>logError(data)\<close>, with the default key.\<close>

definition mainResponses_LOG_ERROR :: "MainEnv \<Rightarrow> ErrorLog \<Rightarrow> error_store \<Rightarrow> error_store" where
  "mainResponses_LOG_ERROR env data storedLog = logError env data Key_renderer storedLog"

definition ERROR_FILTER :: "string list" where
  "ERROR_FILTER = [''ENOENT: no such file or directory'']"

text \<open>\<^verbatim>\<open>String.prototype.includes\<close>: \<open>a\<close> occurs in \<open>str\<close> as a contiguous run.\<close>

fun str_includes :: "string \<Rightarrow> string \<Rightarrow> bool" where
  "str_includes [] a = (a = [])"
| "str_includes (c # cs) a = (prefix a (c # cs) \<or> str_includes cs a)"

definition createLog :: "MainEnv \<Rightarrow> Error \<Rightarrow> ErrorLog" where
  "createLog env err =
     \<lparr>time = newDate env,
      os = (if platform env = [] then ''Unknown'' else platform env),
      version = getVersion env,
      type = ''Uncaught Exception'',
      source = ''See stack'',
      message = err_message err,
      stack = err_stack err,
      dev = False\<rparr>"

text \<open>The listener that \<^verbatim>\<open>catchErrors\<close> installs for \<^verbatim>\<open>uncaughtException\<close>. The result
  of \<^verbatim>\<open>find\<close> is tested for truth: a string that is found counts unless it is empty.\<close>

definition uncaughtException :: "MainEnv \<Rightarrow> Error \<Rightarrow> error_store \<Rightarrow> error_store" where
  "uncaughtException env err storedLog =
     (case find (\<lambda>a. str_includes (err_message err) a) ERROR_FILTER of
        Some a \<Rightarrow> if a \<noteq> [] then storedLog else logError env (createLog env err) Key_main storedLog
      | None \<Rightarrow> logError env (createLog env err) Key_main storedLog)"

subsection \<open>Screen capture\<close>

datatype capture_type = Window | Screen

record DesktopCapturerSource =
  source_name :: string
  source_id :: string

text \<open>A window of the application: what \<^verbatim>\<open>getMediaSourceId()\<close> and \<^verbatim>\<open>getTitle()\<close> return.\<close>

record BrowserWindow =
  getMediaSourceId :: string
  getTitle :: string

text \<open>An entry of the result. A field is \<open>None\<close> when the code stores \<^verbatim>\<open>undefined\<close>,
  which it does for a main window that is \<^verbatim>\<open>null\<close>.\<close>

record ScreenEntry =
  entry_name :: "string option"
  entry_id :: "string option"

text \<open>What \<^verbatim>\<open>getScreens\<close> reads from outside: how the promise of
  \<^verbatim>\<open>desktopCapturer.getSources\<close> settles for a type (\<open>Inl\<close> a rejection with its error),
  \<^verbatim>\<open>mainWindow\<close>, and the window of each output of \<^verbatim>\<open>OutputHelper.getAllOutputs()\<close>.\<close>

record ScreenEnv =
  getSources :: "capture_type \<Rightarrow> string + DesktopCapturerSource list"
  mainWindow :: "BrowserWindow option"
  getAllOutputs :: "BrowserWindow option list"

datatype 'a promise = Resolved 'a | Rejected string

datatype console = ConsoleError string string

definition addFreeShowWindows ::
  "ScreenEnv \<Rightarrow> ScreenEntry list \<Rightarrow> DesktopCapturerSource list \<Rightarrow> ScreenEntry list" where
  "addFreeShowWindows env screens sources =
     (let windows = fold (\<lambda>output acc. case output of Some w \<Rightarrow> acc @ [w] | None \<Rightarrow> acc)
                      (getAllOutputs env) []
      in fold (\<lambda>window acc.
                let mediaId = map_option getMediaSourceId window;
                    windowsAlreadyExists = find (\<lambda>a. Some (source_id a) = mediaId) sources
                in case windowsAlreadyExists of
                     Some _ \<Rightarrow> acc
                   | None \<Rightarrow> acc @ [\<lparr>entry_name = map_option getTitle window, entry_id = mediaId\<rparr>])
           (mainWindow env # map Some windows) screens)"

definition getScreens :: "capture_type \<Rightarrow> ScreenEnv \<Rightarrow> console list \<times> ScreenEntry list promise" where
  "getScreens type' env =
     (case getSources env type' of
        Inr sources \<Rightarrow>
          let screens = fold (\<lambda>source acc.
                                acc @ [\<lparr>entry_name = Some (source_name source),
                                        entry_id = Some (source_id source)\<rparr>])
                          sources [];
              screens' = (if type' = Window then addFreeShowWindows env screens sources
                          else screens)
          in ([], Resolved screens')
      | Inl err \<Rightarrow> ([ConsoleError ''Could not get screens:'' err], Resolved []))"

text \<open>The two entries of \<^verbatim>\<open>mainResponses\<close> that call it.\<close>

datatype channel = GET_SCREENS | GET_WINDOWS

fun mainResponses :: "channel \<Rightarrow> ScreenEnv \<Rightarrow> console list \<times> ScreenEntry list promise" where
  "mainResponses GET_SCREENS env = getScreens Screen env"
| "mainResponses GET_WINDOWS env = getScreens Window env"

subsection \<open>The claims' own words for the main process\<close>

text \<open>The stored log for a key: no entries when the key is absent.\<close>

definition entries_of :: "error_store \<Rightarrow> log_key \<Rightarrow> ErrorLog list" where
  "entries_of storedLog key = (case storedLog key of None \<Rightarrow> [] | Some l \<Rightarrow> l)"

text \<open>An entry as it is stored: outside production it is marked \<^verbatim>\<open>dev\<close>.\<close>

definition as_stored :: "MainEnv \<Rightarrow> ErrorLog \<Rightarrow> ErrorLog" where
  "as_stored env entry = (if isProd env then entry else entry\<lparr>dev := True\<rparr>)"

text \<open>The entry of the result for a captured source, and for a window of the application.\<close>

definition source_entry :: "DesktopCapturerSource \<Rightarrow> ScreenEntry" where
  "source_entry src = \<lparr>entry_name = Some (source_name src), entry_id = Some (source_id src)\<rparr>"

definition window_entry :: "BrowserWindow option \<Rightarrow> ScreenEntry" where
  "window_entry w = \<lparr>entry_name = map_option getTitle w, entry_id = map_option getMediaSourceId w\<rparr>"

text \<open>The windows of the application, the main window first, whose media source id is not
  the id of a captured source.\<close>

definition windows_not_captured ::
  "ScreenEnv \<Rightarrow> DesktopCapturerSource list \<Rightarrow> BrowserWindow option list" where
  "windows_not_captured env sources =
     filter (\<lambda>w. \<not> list_ex (\<lambda>a. Some (source_id a) = map_option getMediaSourceId w) sources)
       (mainWindow env # filter (\<lambda>output. output \<noteq> None) (getAllOutputs env))"

section \<open>Example inputs\<close>

text \<open>An analyser whose every byte is 100 and one whose every byte is 101, a running
  analyzer whose smoothed values are 15, a started one that has not sampled yet, and the
  environment of a frame.\<close>

definition analyser_128 :: Analyser where
  "analyser_128 = \<lparr>fftSize = 256, sampleRate = 48000, frequencyBinCount = 128,
                     byteFrequencyData = (\<lambda>i. 100)\<rparr>"

definition analyser_101 :: Analyser where
  "analyser_101 = \<lparr>fftSize = 256, sampleRate = 48000, frequencyBinCount = 128,
                     byteFrequencyData = (\<lambda>i. 101)\<rparr>"

definition fresh_state :: SpectrumAnalyzer where
  "fresh_state = (constructor [analyser_128])\<lparr>isAnalyzing := True\<rparr>"

definition running_state :: SpectrumAnalyzer where
  "running_state =
     \<lparr>frequencyData = replicate 128 100, smoothedFrequencyData = replicate 128 15,
      animationFrame = Some 1, isAnalyzing = True, lastUpdateTime = 1000,
      actualFFTSize = 256, actualSampleRate = 48000, onUpdateCallback = None\<rparr>"

definition frame_at :: "int \<Rightarrow> Analyser list \<Rightarrow> Env" where
  "frame_at t as = \<lparr>dateNow = t, getAnalysers = as, rafHandle = 2\<rparr>"

definition example_env :: MainEnv where
  "example_env = \<lparr>isProd = True, newDate = 1700000000000, platform = ''linux'',
                    getVersion = ''1.4.0''\<rparr>"

definition example_entry :: ErrorLog where
  "example_entry = \<lparr>time = 0, os = ''linux'', version = ''1.4.0'', type = ''Error'',
                      source = ''renderer'', message = ''old'', stack = None, dev = False\<rparr>"

section \<open>Facts about the logarithmic axis\<close>

lemma log10_range_pos: "0 < log10 maxFreq - log10 minFreq"
proof -
  have "log 10 (20::real) < log 10 20000" by simp
  then show ?thesis by (simp add: log10_def maxFreq_def minFreq_def)
qed

lemma log10_pow10 [simp]: "log10 (pow10 y) = y"
  by (simp add: log10_def pow10_def)

lemma pow10_log10 [simp]: "0 < v \<Longrightarrow> pow10 (log10 v) = v"
  by (simp add: log10_def pow10_def)

text \<open>
  Claim C8. The two conversions of the logarithmic axis are mutually inverse over the
  reals: for every frequency \<open>f > 0\<close> and canvas width \<open>w > 0\<close>,
  \<open>xToFrequency (frequencyToX f w) w = f\<close>, and for every position \<open>p\<close>,
  \<open>frequencyToX (xToFrequency p w) w = p\<close>.
\<close>

theorem frequencyToX_xToFrequency_inverse:
  assumes "0 < f" and "0 < w"
  shows "xToFrequency (frequencyToX f w) w = f \<and> frequencyToX (xToFrequency p w) w = p"
proof -
  let ?d = "log10 maxFreq - log10 minFreq"
  have d: "?d \<noteq> 0" using log10_range_pos by simp
  have w: "w \<noteq> 0" using assms(2) by simp
  have "log10 minFreq + ((log10 f - log10 minFreq) / ?d * w / w) * ?d = log10 f"
    using d w by simp
  then have one: "xToFrequency (frequencyToX f w) w = f"
    unfolding xToFrequency_def frequencyToX_def Let_def
    using assms(1) by (simp only: pow10_log10)
  have "(log10 minFreq + p / w * ?d - log10 minFreq) / ?d * w = p"
    using d w by simp
  then have two: "frequencyToX (xToFrequency p w) w = p"
    unfolding xToFrequency_def frequencyToX_def Let_def log10_pow10 .
  from one two show ?thesis by simp
qed

theorem frequencyToX_xToFrequency_inverse_witness:
  "(0::real) < 440 \<and> (0::real) < 800
   \<and> xToFrequency (frequencyToX 440 800) 800 = 440
   \<and> frequencyToX (xToFrequency 300 800) 800 = 300"
  using frequencyToX_xToFrequency_inverse [of 440 800 300] by simp

section \<open>IEEE 754 rounding\<close>

lemma pow2_powr: "pow2 k = 2 powr (real_of_int k)"
  by (simp add: pow2_def powr_real_of_int inverse_eq_divide)

lemma pow2_pos: "0 < pow2 k"
  by (simp add: pow2_powr)

lemma pow2_add: "pow2 (j + k) = pow2 j * pow2 k"
  by (simp add: pow2_powr powr_add)

lemma pow2_nat: "pow2 (int d) = 2 ^ d"
  by (simp add: pow2_def)

lemma pow2_mono: "j \<le> k \<Longrightarrow> pow2 j \<le> pow2 k"
  by (simp add: pow2_powr)

lemma ieee_round_zero: "ieee_round p emin 0 = 0"
  by (simp add: ieee_round_def)

text \<open>The rounding of a number whose binary exponent is known.\<close>

lemma ieee_round_in_binade:
  assumes "pow2 k \<le> \<bar>v\<bar>" and "\<bar>v\<bar> < pow2 (k + 1)" and "emin \<le> k"
  shows "ieee_round p emin v =
         real_of_int (round_half_even (v / pow2 (k - (int p - 1)))) * pow2 (k - (int p - 1))"
proof -
  have pos: "0 < \<bar>v\<bar>" using pow2_pos [of k] assms(1) by linarith
  have "\<lfloor>log 2 \<bar>v\<bar>\<rfloor> = k"
    using assms(1,2) floor_log_eq_powr_iff [of "\<bar>v\<bar>" 2 k] pos
    by (simp add: pow2_powr)
  with pos assms(3) show ?thesis by (simp add: ieee_round_def Let_def max_def)
qed

lemma round_half_even_nonneg: "0 \<le> q \<Longrightarrow> 0 \<le> round_half_even q"
  by (simp add: round_half_even_def Let_def)

text \<open>Rounding to an integer does not pass an integer, nor one that is a quarter away.\<close>

lemma round_half_even_le:
  assumes "q \<le> real_of_int m + 1 / 4"
  shows "round_half_even q \<le> m"
proof -
  have f: "\<lfloor>q\<rfloor> \<le> m" using assms by (simp add: floor_le_iff)
  show ?thesis
  proof (cases "\<lfloor>q\<rfloor> = m")
    case True
    then have "q - real_of_int \<lfloor>q\<rfloor> < 1 / 2" using assms by simp
    with True show ?thesis by (simp add: round_half_even_def Let_def)
  next
    case False
    with f have "\<lfloor>q\<rfloor> + 1 \<le> m" by simp
    then show ?thesis using f by (simp add: round_half_even_def Let_def)
  qed
qed

lemma ieee_round_nonneg:
  assumes "0 \<le> v"
  shows "0 \<le> ieee_round p emin v"
proof (cases "v = 0")
  case True
  then show ?thesis by (simp add: ieee_round_zero)
next
  case False
  define ulp where "ulp = pow2 (max emin \<lfloor>log 2 \<bar>v\<bar>\<rfloor> - (int p - 1))"
  have u: "0 < ulp" by (simp add: ulp_def pow2_pos)
  have "0 \<le> v / ulp" using assms u by simp
  then have "0 \<le> round_half_even (v / ulp)" by (rule round_half_even_nonneg)
  then have "0 \<le> real_of_int (round_half_even (v / ulp)) * ulp" using u by simp
  with False show ?thesis by (simp add: ieee_round_def Let_def ulp_def)
qed

text \<open>Rounding does not pass a number of the format: a multiple \<open>M * 2 ^ j\<close> above \<open>v\<close>,
  where \<open>v\<close> is below \<open>2 ^ (j + p)\<close>, so that the numbers of the format near \<open>v\<close> are at
  most \<open>2 ^ j\<close> apart.\<close>

lemma ieee_round_le:
  assumes "v \<le> real_of_int M * pow2 j"
    and "\<bar>v\<bar> < pow2 (j + int p)"
    and "emin \<le> j + int p - 1"
  shows "ieee_round p emin v \<le> real_of_int M * pow2 j"
proof (cases "v = 0")
  case True
  with assms(1) show ?thesis by (simp add: ieee_round_zero)
next
  case False
  define e where "e = max emin \<lfloor>log 2 \<bar>v\<bar>\<rfloor>"
  define ulp where "ulp = pow2 (e - (int p - 1))"
  have u: "0 < ulp" by (simp add: ulp_def pow2_pos)
  have "log 2 \<bar>v\<bar> < real_of_int (j + int p)"
    using assms(2) False by (simp add: pow2_powr log_less_iff)
  then have "\<lfloor>log 2 \<bar>v\<bar>\<rfloor> < j + int p" by (simp add: floor_less_iff)
  with assms(3) have e: "e \<le> j + int p - 1" by (simp add: e_def)
  define d where "d = nat (j - (e - (int p - 1)))"
  have jd: "j = (e - (int p - 1)) + int d" using e by (simp add: d_def)
  have grid: "pow2 j = ulp * 2 ^ d"
    by (subst jd) (simp add: pow2_add pow2_nat ulp_def)
  have "v \<le> (real_of_int M * 2 ^ d) * ulp"
    using assms(1) by (simp add: grid mult_ac)
  then have "v / ulp \<le> real_of_int M * 2 ^ d"
    using u by (simp only: pos_divide_le_eq)
  then have "v / ulp \<le> real_of_int (M * 2 ^ d) + 1 / 4" by simp
  then have "round_half_even (v / ulp) \<le> M * 2 ^ d" by (rule round_half_even_le)
  then have "real_of_int (round_half_even (v / ulp)) \<le> real_of_int (M * 2 ^ d)"
    by (simp only: of_int_le_iff)
  then have "real_of_int (round_half_even (v / ulp)) * ulp \<le> real_of_int (M * 2 ^ d) * ulp"
    using u by (simp add: mult_right_mono)
  also have "\<dots> = real_of_int M * pow2 j" by (simp add: grid mult_ac)
  finally show ?thesis using False by (simp add: ieee_round_def Let_def e_def ulp_def)
qed

subsection \<open>The constants and values of the examples\<close>

lemma to_double_015: "to_double 0.15 = 5404319552844595 / 36028797018963968"
  unfolding to_double_def
  by (subst ieee_round_in_binade [where k = "- 3"])
     (simp_all add: pow2_def round_half_even_def Let_def)

lemma to_double_085: "to_double (1 - to_double 0.15) = 7656119366529843 / 9007199254740992"
  unfolding to_double_015 unfolding to_double_def
  by (subst ieee_round_in_binade [where k = "- 1"])
     (simp_all add: pow2_def round_half_even_def Let_def)

lemma to_double_zero: "to_double 0 = 0"
  by (simp add: to_double_def ieee_round_zero)

lemma to_double_15: "to_double (to_double 0.15 * 100) = 15"
  unfolding to_double_015 unfolding to_double_def
  by (subst ieee_round_in_binade [where k = 3])
     (simp_all add: pow2_def round_half_even_def Let_def)

lemma to_double_1275: "to_double (to_double (1 - to_double 0.15) * 15) = 12.75"
  unfolding to_double_085 unfolding to_double_def
  by (subst ieee_round_in_binade [where k = 3])
     (simp_all add: pow2_def round_half_even_def Let_def)

lemma to_double_exact_15: "to_double 15 = 15"
  unfolding to_double_def
  by (subst ieee_round_in_binade [where k = 3])
     (simp_all add: pow2_def round_half_even_def Let_def)

lemma to_double_exact_2775: "to_double 27.75 = 27.75"
  unfolding to_double_def
  by (subst ieee_round_in_binade [where k = 4])
     (simp_all add: pow2_def round_half_even_def Let_def)

lemma fround_15: "fround 15 = 15"
  unfolding fround_def
  by (subst ieee_round_in_binade [where k = 3])
     (simp_all add: pow2_def round_half_even_def Let_def)

lemma fround_2775: "fround 27.75 = 27.75"
  unfolding fround_def
  by (subst ieee_round_in_binade [where k = 4])
     (simp_all add: pow2_def round_half_even_def Let_def)

lemma rounded_smoothing_100_0: "rounded_smoothing 100 0 = 15"
  by (simp only: rounded_smoothing_def to_double_15 mult_zero_right to_double_zero add_0_right
      to_double_exact_15 fround_15)

lemma rounded_smoothing_100_15: "rounded_smoothing 100 15 = 27.75"
proof -
  have s: "(15::real) + 12.75 = 27.75" by simp
  show ?thesis
    by (simp only: rounded_smoothing_def to_double_15 to_double_1275 s to_double_exact_2775
        fround_2775)
qed

lemma to_double_101: "to_double (to_double 0.15 * 101) = 8528691794332876 / 562949953421312"
  unfolding to_double_015 unfolding to_double_def
  by (subst ieee_round_in_binade [where k = 3])
     (simp_all add: pow2_def round_half_even_def Let_def)

text \<open>On a first frame the byte 101 is stored as 15.1499996185302734375, not as 15.15.\<close>

lemma rounded_smoothing_101_0: "rounded_smoothing 101 0 = 15885926 / 1048576"
proof -
  have d: "to_double (8528691794332876 / 562949953421312) = 8528691794332876 / 562949953421312"
    unfolding to_double_def
    by (subst ieee_round_in_binade [where k = 3])
       (simp_all add: pow2_def round_half_even_def Let_def)
  have f: "fround (8528691794332876 / 562949953421312) = 15885926 / 1048576"
    unfolding fround_def
    by (subst ieee_round_in_binade [where k = 3])
       (simp_all add: pow2_def round_half_even_def Let_def)
  show ?thesis
    by (simp only: rounded_smoothing_def to_double_101 mult_zero_right to_double_zero add_0_right
        d f)
qed

subsection \<open>The range of the smoothed values\<close>

text \<open>From a byte and a previous value that is at most the greatest single-precision
  number below 255, the smoothing gives such a value again.\<close>

lemma rounded_smoothing_below_255:
  assumes "0 \<le> b" and "b \<le> 255" and "below_255 prev"
  shows "below_255 (rounded_smoothing b prev)"
proof -
  define sf where "sf = to_double 0.15"
  define k where "k = to_double (1 - sf)"
  define t1 where "t1 = to_double (sf * b)"
  define t2 where "t2 = to_double (k * prev)"
  define t3 where "t3 = to_double (t1 + t2)"
  have r: "rounded_smoothing b prev = fround t3"
    by (simp add: rounded_smoothing_def sf_def k_def t1_def t2_def t3_def)
  have p: "0 \<le> prev" "prev \<le> 255 - 1 / 65536" using assms(3) by (simp_all add: below_255_def)
  have sf: "0 \<le> sf" "sf \<le> 0.15" unfolding sf_def to_double_015 by simp_all
  have k: "0 \<le> k" "k \<le> 0.85" unfolding k_def sf_def to_double_085 by simp_all
  have a1: "0 \<le> sf * b" using sf(1) assms(1) by simp
  have "sf * b \<le> 0.15 * 255" using sf assms(1,2) by (intro mult_mono) simp_all
  then have b1: "sf * b \<le> real_of_int 153 * pow2 (- 2)" by (simp add: pow2_def)
  have "\<bar>sf * b\<bar> < pow2 (- 2 + int 53)" using a1 b1 by (simp add: pow2_def)
  from ieee_round_le [OF b1 this, of "- 1022"] ieee_round_nonneg [OF a1, of 53 "- 1022"]
  have t1: "0 \<le> t1" "t1 \<le> 38.25" by (simp_all add: t1_def to_double_def pow2_def)
  have a2: "0 \<le> k * prev" using k(1) p(1) by simp
  have "k * prev \<le> 0.85 * (255 - 1 / 65536)" using k p by (intro mult_mono) simp_all
  then have b2: "k * prev \<le> real_of_int 56819709 * pow2 (- 18)" by (simp add: pow2_def)
  have "\<bar>k * prev\<bar> < pow2 (- 18 + int 53)" using a2 b2 by (simp add: pow2_def)
  from ieee_round_le [OF b2 this, of "- 1022"] ieee_round_nonneg [OF a2, of 53 "- 1022"]
  have t2: "0 \<le> t2" "t2 \<le> 56819709 / 262144" by (simp_all add: t2_def to_double_def pow2_def)
  have a3: "0 \<le> t1 + t2" using t1(1) t2(1) by simp
  have b3: "t1 + t2 \<le> real_of_int 66846717 * pow2 (- 18)" using t1(2) t2(2) by (simp add: pow2_def)
  have "\<bar>t1 + t2\<bar> < pow2 (- 18 + int 53)" using a3 b3 by (simp add: pow2_def)
  from ieee_round_le [OF b3 this, of "- 1022"] ieee_round_nonneg [OF a3, of 53 "- 1022"]
  have t3: "0 \<le> t3" "t3 \<le> 66846717 / 262144" by (simp_all add: t3_def to_double_def pow2_def)
  have lower: "0 \<le> fround t3" unfolding fround_def using t3(1) by (rule ieee_round_nonneg)
  have upper: "fround t3 \<le> 255 - 1 / 65536"
  proof (cases "t3 < 128")
    case True
    have b4: "t3 \<le> real_of_int 1 * pow2 7" using True by (simp add: pow2_def)
    have "\<bar>t3\<bar> < pow2 (7 + int 24)" using t3(1) True by (simp add: pow2_def)
    from ieee_round_le [OF b4 this, of "- 126"] show ?thesis
      by (simp add: fround_def pow2_def)
  next
    case False
    then have lo: "pow2 7 \<le> \<bar>t3\<bar>" and hi: "\<bar>t3\<bar> < pow2 (7 + 1)"
      using t3 by (simp_all add: pow2_def)
    have eq: "fround t3 = real_of_int (round_half_even (t3 / pow2 (7 - (int 24 - 1))))
                            * pow2 (7 - (int 24 - 1))"
      unfolding fround_def by (rule ieee_round_in_binade [OF lo hi]) simp
    have "t3 / pow2 (7 - (int 24 - 1)) \<le> real_of_int 16711679 + 1 / 4"
      using t3(2) by (simp add: pow2_def)
    then have "round_half_even (t3 / pow2 (7 - (int 24 - 1))) \<le> 16711679"
      by (rule round_half_even_le)
    then have "real_of_int (round_half_even (t3 / pow2 (7 - (int 24 - 1)))) \<le> 16711679"
      by simp
    then show ?thesis unfolding eq by (simp add: pow2_def)
  qed
  from lower upper show ?thesis by (simp add: r below_255_def)
qed

section \<open>The update step\<close>

lemma fold_update_upt:
  "n \<le> length a \<Longrightarrow>
   fold (\<lambda>i a. a[i := g i (a ! i)]) [0..<n] a =
   map (\<lambda>i. if i < n then g i (a ! i) else a ! i) [0..<length a]"
proof (induction n)
  case 0
  then show ?case by (simp add: map_nth)
next
  case (Suc n)
  then have IH: "fold (\<lambda>i a. a[i := g i (a ! i)]) [0..<n] a =
     map (\<lambda>i. if i < n then g i (a ! i) else a ! i) [0..<length a]" by simp
  show ?case
    using Suc.prems
    by (auto simp: IH intro!: nth_equalityI simp: nth_list_update less_Suc_eq)
qed

lemma copy_loop_same_length:
  "length fd = length tempData \<Longrightarrow> copy_loop tempData fd = tempData"
  unfolding copy_loop_def
  using fold_update_upt [of "length tempData" fd "\<lambda>i _. tempData ! i"]
  by (auto intro!: nth_equalityI)

lemma smooth_loop_same_length:
  "length sm = length fd \<Longrightarrow>
   smooth_loop fd sm =
   map (\<lambda>i. rounded_smoothing (real (unat (fd ! i))) (sm ! i)) [0..<length fd]"
  unfolding smooth_loop_def rounded_smoothing_def smoothingFactor_def
  using fold_update_upt [of "length fd" sm
      "\<lambda>i v. fround (to_double (to_double (to_double 0.15 * real (unat (fd ! i)))
                              + to_double (to_double (1 - to_double 0.15) * v)))"]
  by (auto intro!: nth_equalityI)

text \<open>The state after an update that passes the throttle and finds an analyser.\<close>


lemma update_sampled:
  assumes "isAnalyzing s" and "updateInterval \<le> dateNow env - lastUpdateTime s"
    and "getAnalysers env = analyser # others" and "same_length s"
  shows "updateFrequencyData env s =
     (GetByteFrequencyData # (case onUpdateCallback s of None \<Rightarrow> [] | Some c \<Rightarrow> [Callback c])
        @ [RequestAnimationFrame],
      s\<lparr>lastUpdateTime := dateNow env,
        frequencyData := map (byteFrequencyData analyser) [0..<frequencyBinCount analyser],
        smoothedFrequencyData :=
          map (\<lambda>i. rounded_smoothing (real (unat (byteFrequencyData analyser i)))
                   (if length (frequencyData s) = frequencyBinCount analyser
                    then smoothedFrequencyData s ! i else 0))
            [0..<frequencyBinCount analyser],
        animationFrame := Some (rafHandle env)\<rparr>)"
proof (cases "length (frequencyData s) = frequencyBinCount analyser")
  case True
  with assms show ?thesis
    by (simp add: updateFrequencyData_def Let_def same_length_def
        copy_loop_same_length smooth_loop_same_length)
next
  case False
  with assms show ?thesis
    by (simp add: updateFrequencyData_def Let_def same_length_def
        copy_loop_same_length smooth_loop_same_length)
qed

lemma update_throttled:
  assumes "dateNow env - lastUpdateTime s < updateInterval"
  shows "updateFrequencyData env s =
     (if isAnalyzing s then ([RequestAnimationFrame], s\<lparr>animationFrame := Some (rafHandle env)\<rparr>)
      else ([], s))"
  using assms by (simp add: updateFrequencyData_def Let_def)

lemma update_sampling_time:
  assumes "updateFrequencyData env s = (evs, s')"
  shows "lastUpdateTime s \<le> lastUpdateTime s'"
    and "GetByteFrequencyData \<in> set evs \<Longrightarrow>
         lastUpdateTime s + updateInterval \<le> dateNow env \<and> lastUpdateTime s' = dateNow env"
  using assms
  by (auto simp: updateFrequencyData_def Let_def updateInterval_def
      split: if_splits list.splits option.splits)

lemma updateAnalyserProperties_time [simp]:
  "lastUpdateTime (updateAnalyserProperties as s) = lastUpdateTime s"
  by (simp add: updateAnalyserProperties_def Let_def split: list.splits)

lemma perform_sampling_time:
  assumes "perform a env s = (evs, s')"
  shows "lastUpdateTime s \<le> lastUpdateTime s'"
    and "GetByteFrequencyData \<in> set evs \<Longrightarrow>
         lastUpdateTime s + updateInterval \<le> dateNow env \<and> lastUpdateTime s' = dateNow env"
proof -
  have "lastUpdateTime s \<le> lastUpdateTime s' \<and>
        (GetByteFrequencyData \<in> set evs \<longrightarrow>
         lastUpdateTime s + updateInterval \<le> dateNow env \<and> lastUpdateTime s' = dateNow env)"
  proof (cases a)
    case (Start cb)
    show ?thesis
    proof (cases "isAnalyzing s")
      case True
      with Start assms show ?thesis by (auto simp: start_def)
    next
      case False
      let ?s2 = "(updateAnalyserProperties (getAnalysers env) s)\<lparr>onUpdateCallback := cb, isAnalyzing := True\<rparr>"
      from False Start assms have "updateFrequencyData env ?s2 = (evs, s')"
        by (simp add: start_def Let_def)
      from update_sampling_time [OF this] show ?thesis by simp
    qed
  next
    case Stop
    with assms show ?thesis
      by (auto simp: stop_def Let_def split: option.splits if_splits)
  next
    case Dispose
    with assms show ?thesis
      by (auto simp: dispose_def stop_def Let_def split: option.splits if_splits)
  next
    case Frame
    with assms update_sampling_time [of env s evs s'] show ?thesis by simp
  qed
  then show "lastUpdateTime s \<le> lastUpdateTime s'"
    and "GetByteFrequencyData \<in> set evs \<Longrightarrow>
         lastUpdateTime s + updateInterval \<le> dateNow env \<and> lastUpdateTime s' = dateNow env"
    by simp_all
qed

lemma sample_times_run:
  "(\<forall>t \<in> set (sample_times (run acts s)). lastUpdateTime s + updateInterval \<le> t)
   \<and> sorted_wrt (\<lambda>t1 t2. t1 + updateInterval \<le> t2) (sample_times (run acts s))"
proof (induction acts arbitrary: s)
  case Nil
  show ?case by (simp add: sample_times_def)
next
  case (Cons p acts)
  obtain a env where p: "p = (a, env)" by (cases p)
  obtain evs s' where st: "perform a env s = (evs, s')" by (cases "perform a env s")
  note mono = perform_sampling_time(1) [OF st]
  note samp = perform_sampling_time(2) [OF st]
  have later: "\<forall>t \<in> set (sample_times (run acts s')). lastUpdateTime s' + updateInterval \<le> t"
    and sorted: "sorted_wrt (\<lambda>t1 t2. t1 + updateInterval \<le> t2) (sample_times (run acts s'))"
    using Cons.IH [of s'] by simp_all
  show ?case
  proof (cases "GetByteFrequencyData \<in> set evs")
    case True
    then have tl: "sample_times (run (p # acts) s) = dateNow env # sample_times (run acts s')"
      by (simp add: p st sample_times_def)
    from samp [OF True] later sorted show ?thesis
      unfolding tl by (auto simp: updateInterval_def)
  next
    case False
    then have tl: "sample_times (run (p # acts) s) = sample_times (run acts s')"
      by (simp add: p st sample_times_def)
    from mono later sorted show ?thesis
      unfolding tl by fastforce
  qed
qed

text \<open>The example state is what a new analyzer is in after \<^verbatim>\<open>start\<close> at time 1000.\<close>

lemma running_state_reached:
  "snd (start None \<lparr>dateNow = 1000, getAnalysers = [analyser_128], rafHandle = 1\<rparr>
         (constructor [analyser_128])) = running_state"
proof -
  let ?env = "\<lparr>dateNow = 1000, getAnalysers = [analyser_128], rafHandle = 1\<rparr>"
  let ?s0 = "constructor [analyser_128]"
  have s0: "?s0 = \<lparr>frequencyData = replicate 128 0, smoothedFrequencyData = replicate 128 0,
        animationFrame = None, isAnalyzing = False, lastUpdateTime = 0,
        actualFFTSize = 256, actualSampleRate = 48000, onUpdateCallback = None\<rparr>"
    by (simp add: constructor_def updateAnalyserProperties_def analyser_128_def Let_def)
  let ?s2 = "(updateAnalyserProperties (getAnalysers ?env) ?s0)\<lparr>onUpdateCallback := None, isAnalyzing := True\<rparr>"
  have s2: "?s2 = \<lparr>frequencyData = replicate 128 0, smoothedFrequencyData = replicate 128 0,
        animationFrame = None, isAnalyzing = True, lastUpdateTime = 0,
        actualFFTSize = 256, actualSampleRate = 48000, onUpdateCallback = None\<rparr>"
    unfolding s0 by (simp add: updateAnalyserProperties_def analyser_128_def Let_def)
  have "start None ?env ?s0 = updateFrequencyData ?env ?s2"
    unfolding s0 by (simp add: start_def Let_def)
  also have "snd (updateFrequencyData ?env ?s2) = running_state"
  proof -
    have "map (\<lambda>i. rounded_smoothing 100 (replicate 128 (0::real) ! i)) [0..<128]
          = replicate 128 15"
      by (rule nth_equalityI) (simp_all add: rounded_smoothing_100_0)
    then show ?thesis
      unfolding s2
      by (subst update_sampled [where analyser = analyser_128 and others = "[]"])
         (simp_all add: updateInterval_def same_length_def running_state_def analyser_128_def
            map_replicate_const)
  qed
  finally show ?thesis .
qed

text \<open>
  Claim C1, as stated, at the first frame of a started analyzer, whose smoothed values
  are 0, with an analyser whose bytes are 101 and whose bin count is the length of the
  arrays. Element 0 becomes the single-precision number 15.1499996185302734375, which is
  not \<open>0.15 * 101 + (1 - 0.15) * 0\<close>.
\<close>

theorem smoothing_single_precision_counterexample:
  "isAnalyzing fresh_state
   \<and> updateInterval \<le> dateNow (frame_at 2000 [analyser_101]) - lastUpdateTime fresh_state
   \<and> getAnalysers (frame_at 2000 [analyser_101]) = [analyser_101]
   \<and> length (smoothedFrequencyData fresh_state) = frequencyBinCount analyser_101
   \<and> smoothedFrequencyData (snd (updateFrequencyData (frame_at 2000 [analyser_101]) fresh_state)) ! 0
       = 15885926 / 1048576
   \<and> smoothedFrequencyData (snd (updateFrequencyData (frame_at 2000 [analyser_101]) fresh_state)) ! 0
       \<noteq> 0.15 * real (unat (byteFrequencyData analyser_101 0))
           + (1 - 0.15) * smoothedFrequencyData fresh_state ! 0"
proof -
  have fresh: "fresh_state = \<lparr>frequencyData = replicate 128 0, smoothedFrequencyData = replicate 128 0,
        animationFrame = None, isAnalyzing = True, lastUpdateTime = 0,
        actualFFTSize = 256, actualSampleRate = 48000, onUpdateCallback = None\<rparr>"
    by (simp add: fresh_state_def constructor_def updateAnalyserProperties_def analyser_128_def Let_def)
  have "smoothedFrequencyData (snd (updateFrequencyData (frame_at 2000 [analyser_101]) fresh_state)) ! 0
        = rounded_smoothing 101 0"
    unfolding fresh
    by (subst update_sampled [where analyser = analyser_101 and others = "[]"])
       (simp_all add: updateInterval_def same_length_def analyser_101_def frame_at_def)
  then have v: "smoothedFrequencyData (snd (updateFrequencyData (frame_at 2000 [analyser_101]) fresh_state)) ! 0
        = 15885926 / 1048576"
    by (simp only: rounded_smoothing_101_0)
  show ?thesis
    unfolding v by (simp add: fresh frame_at_def analyser_101_def updateInterval_def)
qed

text \<open>
  Claim C1, amended. In every update step of a running analyzer that passes the throttle
  and finds an analyser, the smoothed array gets the length of the sample, and each of
  its elements becomes the value of \<open>0.15 * sample + (1 - 0.15) * previous\<close> as the
  doubles of the language evaluate it, rounded to single precision by the store into
  the \<^verbatim>\<open>Float32Array\<close>. The sample is the byte of that index, and the previous value is
  the one the loop reads: the value of the element before the step, or 0 in a step that
  has allocated the arrays anew because the sample has another length.
\<close>

theorem updateFrequencyData_smoothing:
  assumes "isAnalyzing s"
    and "updateInterval \<le> dateNow env - lastUpdateTime s"
    and "getAnalysers env = analyser # others"
    and "same_length s"
  shows "length (smoothedFrequencyData (snd (updateFrequencyData env s))) = frequencyBinCount analyser
    \<and> (\<forall>i < frequencyBinCount analyser.
          smoothedFrequencyData (snd (updateFrequencyData env s)) ! i =
            rounded_smoothing (real (unat (byteFrequencyData analyser i)))
              (if length (frequencyData s) = frequencyBinCount analyser
               then smoothedFrequencyData s ! i else 0))"
  by (simp add: update_sampled [OF assms])

theorem updateFrequencyData_smoothing_witness:
  "isAnalyzing running_state
   \<and> updateInterval \<le> dateNow (frame_at 2000 [analyser_128]) - lastUpdateTime running_state
   \<and> getAnalysers (frame_at 2000 [analyser_128]) = analyser_128 # []
   \<and> same_length running_state
   \<and> length (smoothedFrequencyData (snd (updateFrequencyData (frame_at 2000 [analyser_128]) running_state))) = 128
   \<and> smoothedFrequencyData (snd (updateFrequencyData (frame_at 2000 [analyser_128]) running_state)) ! 5
       = 27.75"
proof -
  have h1: "isAnalyzing running_state" by (simp add: running_state_def)
  have h2: "updateInterval \<le> dateNow (frame_at 2000 [analyser_128]) - lastUpdateTime running_state"
    by (simp add: running_state_def frame_at_def updateInterval_def)
  have h3: "getAnalysers (frame_at 2000 [analyser_128]) = analyser_128 # []"
    by (simp add: frame_at_def)
  have h4: "same_length running_state" by (simp add: running_state_def same_length_def)
  have "frequencyBinCount analyser_128 = 128" by (simp add: analyser_128_def)
  with updateFrequencyData_smoothing [OF h1 h2 h3 h4] h1 h2 h3 h4 show ?thesis
    by (simp add: running_state_def analyser_128_def rounded_smoothing_100_15)
qed

text \<open>The two arrays have one length in a new analyzer, and every call keeps it so.\<close>

lemma same_length_updateAnalyserProperties:
  "same_length s \<Longrightarrow> same_length (updateAnalyserProperties analysers s)"
  by (simp add: updateAnalyserProperties_def same_length_def Let_def split: list.splits)

lemma same_length_constructor: "same_length (constructor analysers)"
  unfolding constructor_def
  by (rule same_length_updateAnalyserProperties) (simp add: same_length_def)

lemma same_length_updateFrequencyData:
  assumes "same_length s"
  shows "same_length (snd (updateFrequencyData env s))"
proof (cases "isAnalyzing s \<and> updateInterval \<le> dateNow env - lastUpdateTime s")
  case False
  with assms show ?thesis
    by (auto simp: updateFrequencyData_def Let_def same_length_def)
next
  case True
  show ?thesis
  proof (cases "getAnalysers env")
    case Nil
    with True assms show ?thesis
      by (simp add: updateFrequencyData_def Let_def same_length_def)
  next
    case (Cons analyser others)
    from True have "isAnalyzing s" and "updateInterval \<le> dateNow env - lastUpdateTime s"
      by simp_all
    from update_sampled [OF this Cons assms] show ?thesis
      by (simp add: same_length_def)
  qed
qed

lemma same_length_perform:
  assumes "same_length s"
  shows "same_length (snd (perform a env s))"
proof (cases a)
  case (Start onUpdate)
  have "same_length ((updateAnalyserProperties (getAnalysers env) s)
                       \<lparr>onUpdateCallback := onUpdate, isAnalyzing := True\<rparr>)"
    using same_length_updateAnalyserProperties [OF assms, of "getAnalysers env"]
    by (simp add: same_length_def)
  from same_length_updateFrequencyData [OF this, of env] assms Start show ?thesis
    by (simp add: start_def Let_def)
next
  case Stop
  with assms show ?thesis
    by (simp add: stop_def Let_def same_length_def split: option.splits)
next
  case Dispose
  with assms show ?thesis
    by (simp add: dispose_def stop_def Let_def same_length_def split: option.splits)
next
  case Frame
  with same_length_updateFrequencyData [OF assms] show ?thesis by simp
qed

text \<open>The smoothed values of a new analyzer are 0, and every call keeps them between 0
  and the greatest single-precision number below 255.\<close>

lemma byte_range: "0 \<le> real (unat (w :: 8 word)) \<and> real (unat w) \<le> 255"
proof
  show "0 \<le> real (unat w)" by (rule of_nat_0_le_iff)
  have "unat w < 2 ^ LENGTH(8)" by (rule unsigned_less)
  then have "unat w \<le> 255" by simp
  then have "real (unat w) \<le> real 255" by (simp only: of_nat_le_iff)
  then show "real (unat w) \<le> 255" by (simp only: of_nat_numeral)
qed

lemma below_255_zero: "below_255 0"
  by (simp add: below_255_def)

lemma below_255_updateAnalyserProperties:
  "list_all below_255 (smoothedFrequencyData s) \<Longrightarrow>
   list_all below_255 (smoothedFrequencyData (updateAnalyserProperties analysers s))"
  by (simp add: updateAnalyserProperties_def Let_def list_all_length below_255_zero
      split: list.splits)

lemma below_255_constructor: "list_all below_255 (smoothedFrequencyData (constructor analysers))"
  unfolding constructor_def
  by (rule below_255_updateAnalyserProperties) (simp add: list_all_length below_255_zero)

lemma below_255_updateFrequencyData:
  assumes "same_length s" and "list_all below_255 (smoothedFrequencyData s)"
  shows "list_all below_255 (smoothedFrequencyData (snd (updateFrequencyData env s)))"
proof (cases "isAnalyzing s \<and> updateInterval \<le> dateNow env - lastUpdateTime s")
  case False
  with assms(2) show ?thesis
    by (auto simp: updateFrequencyData_def Let_def)
next
  case True
  show ?thesis
  proof (cases "getAnalysers env")
    case Nil
    with True assms(2) show ?thesis
      by (simp add: updateFrequencyData_def Let_def)
  next
    case (Cons analyser others)
    from True have "isAnalyzing s" and "updateInterval \<le> dateNow env - lastUpdateTime s"
      by simp_all
    note step = update_sampled [OF this Cons assms(1)]
    have byte: "0 \<le> (unsigned w :: real)" "(unsigned w :: real) \<le> 255" for w :: "8 word"
      using byte_range [of w] by simp_all
    have old: "below_255 (smoothedFrequencyData s ! i)"
      if "i < frequencyBinCount analyser"
        and "length (frequencyData s) = frequencyBinCount analyser" for i
      using assms that by (simp add: same_length_def list_all_length)
    show ?thesis
      unfolding step
      by (auto simp: list_all_length byte intro!: rounded_smoothing_below_255 old below_255_zero)
  qed
qed

lemma below_255_perform:
  assumes "same_length s" and "list_all below_255 (smoothedFrequencyData s)"
  shows "list_all below_255 (smoothedFrequencyData (snd (perform a env s)))"
proof (cases a)
  case (Start onUpdate)
  let ?s2 = "(updateAnalyserProperties (getAnalysers env) s)
               \<lparr>onUpdateCallback := onUpdate, isAnalyzing := True\<rparr>"
  have "same_length ?s2"
    using same_length_updateAnalyserProperties [OF assms(1), of "getAnalysers env"]
    by (simp add: same_length_def)
  moreover have "list_all below_255 (smoothedFrequencyData ?s2)"
    using below_255_updateAnalyserProperties [OF assms(2), of "getAnalysers env"] by simp
  ultimately have "list_all below_255 (smoothedFrequencyData (snd (updateFrequencyData env ?s2)))"
    by (rule below_255_updateFrequencyData)
  with assms(2) Start show ?thesis by (simp add: start_def Let_def)
next
  case Stop
  with assms(2) show ?thesis
    by (simp add: stop_def Let_def split: option.splits)
next
  case Dispose
  then show ?thesis
    by (simp add: dispose_def stop_def Let_def list_all_length below_255_zero
        split: option.splits)
next
  case Frame
  with below_255_updateFrequencyData [OF assms] show ?thesis by simp
qed

text \<open>
  Claim C3. A step of \<^verbatim>\<open>updateFrequencyData\<close> at which less than 50 ms have passed
  since \<open>lastUpdateTime\<close> takes no sample, calls no callback and leaves both arrays and
  \<open>lastUpdateTime\<close> as they were; when the analyzer is running, all it does is request
  the next animation frame. Hence in every run of the analyzer, whatever the calls to
  \<^verbatim>\<open>start\<close>, \<^verbatim>\<open>stop\<close> and \<^verbatim>\<open>dispose\<close> and whatever the clock readings,
  any two samplings are at least 50 ms apart.
\<close>

theorem update_loop_throttled:
  "(dateNow env - lastUpdateTime s < 50 \<longrightarrow>
      (case updateFrequencyData env s of
         (evs, s') \<Rightarrow>
           GetByteFrequencyData \<notin> set evs \<and> (\<forall>c. Callback c \<notin> set evs)
           \<and> frequencyData s' = frequencyData s
           \<and> smoothedFrequencyData s' = smoothedFrequencyData s
           \<and> lastUpdateTime s' = lastUpdateTime s
           \<and> (isAnalyzing s \<longrightarrow>
                evs = [RequestAnimationFrame]
                \<and> s' = s\<lparr>animationFrame := Some (rafHandle env)\<rparr>)))
   \<and> sorted_wrt (\<lambda>t1 t2. t1 + 50 \<le> t2) (sample_times (run acts s0))"
proof -
  have "sorted_wrt (\<lambda>t1 t2. t1 + 50 \<le> t2) (sample_times (run acts s0))"
    using sample_times_run [of acts s0] by (simp add: updateInterval_def)
  moreover have "dateNow env - lastUpdateTime s < updateInterval \<Longrightarrow>
      (case updateFrequencyData env s of
         (evs, s') \<Rightarrow>
           GetByteFrequencyData \<notin> set evs \<and> (\<forall>c. Callback c \<notin> set evs)
           \<and> frequencyData s' = frequencyData s
           \<and> smoothedFrequencyData s' = smoothedFrequencyData s
           \<and> lastUpdateTime s' = lastUpdateTime s
           \<and> (isAnalyzing s \<longrightarrow>
                evs = [RequestAnimationFrame]
                \<and> s' = s\<lparr>animationFrame := Some (rafHandle env)\<rparr>))"
    by (simp add: update_throttled)
  ultimately show ?thesis by (simp add: updateInterval_def)
qed

theorem update_loop_throttled_witness:
  "dateNow (frame_at 1020 [analyser_128]) - lastUpdateTime running_state < 50
   \<and> isAnalyzing running_state
   \<and> updateFrequencyData (frame_at 1020 [analyser_128]) running_state
       = ([RequestAnimationFrame], running_state\<lparr>animationFrame := Some 2\<rparr>)
   \<and> sorted_wrt (\<lambda>t1 t2. t1 + 50 \<le> t2)
        (sample_times (run [(Frame, frame_at 1020 [analyser_128]),
                            (Frame, frame_at 1060 [analyser_128]),
                            (Frame, frame_at 1100 [analyser_128]),
                            (Frame, frame_at 1110 [analyser_128])] running_state))"
proof -
  have h1: "dateNow (frame_at 1020 [analyser_128]) - lastUpdateTime running_state < 50"
    by (simp add: frame_at_def running_state_def)
  have h2: "isAnalyzing running_state" by (simp add: running_state_def)
  from update_loop_throttled [of "frame_at 1020 [analyser_128]" running_state
      "[(Frame, frame_at 1020 [analyser_128]), (Frame, frame_at 1060 [analyser_128]),
        (Frame, frame_at 1100 [analyser_128]), (Frame, frame_at 1110 [analyser_128])]"
      running_state] h1 h2
  show ?thesis by (auto simp: frame_at_def)
qed

text \<open>A run of four frames from a state last updated at 1000: the frames at 1020 and 1100
  are throttled, those at 1060 and 1110 sample.\<close>

lemma run_example:
  "sample_times (run [(Frame, frame_at 1020 [analyser_128]),
                      (Frame, frame_at 1060 [analyser_128]),
                      (Frame, frame_at 1100 [analyser_128]),
                      (Frame, frame_at 1110 [analyser_128])] running_state) = [1060, 1110]"
proof -
  have same: "same_length running_state" by (simp add: running_state_def same_length_def)
  have u1: "updateFrequencyData (frame_at 1020 [analyser_128]) running_state
            = ([RequestAnimationFrame], running_state\<lparr>animationFrame := Some 2\<rparr>)"
    by (simp add: update_throttled frame_at_def running_state_def updateInterval_def)
  obtain s2 where u2: "updateFrequencyData (frame_at 1060 [analyser_128])
                         (running_state\<lparr>animationFrame := Some 2\<rparr>)
                       = ([GetByteFrequencyData, RequestAnimationFrame], s2)"
    and t2: "lastUpdateTime s2 = 1060" and a2: "isAnalyzing s2"
    and l2: "same_length s2" and c2: "onUpdateCallback s2 = None"
    by (subst (asm) update_sampled [where analyser = analyser_128 and others = "[]"])
       (simp_all add: frame_at_def running_state_def updateInterval_def same_length_def
          analyser_128_def)
  have u3: "updateFrequencyData (frame_at 1100 [analyser_128]) s2
            = ([RequestAnimationFrame], s2\<lparr>animationFrame := Some 2\<rparr>)"
    by (simp add: update_throttled frame_at_def t2 a2 updateInterval_def)
  have "fst (updateFrequencyData (frame_at 1110 [analyser_128]) (s2\<lparr>animationFrame := Some 2\<rparr>))
            = [GetByteFrequencyData, RequestAnimationFrame]"
    by (subst update_sampled [where analyser = analyser_128 and others = "[]"])
       (simp_all add: frame_at_def t2 a2 c2 updateInterval_def l2 [unfolded same_length_def]
          same_length_def)
  then obtain s4 where u4: "updateFrequencyData (frame_at 1110 [analyser_128])
                              (s2\<lparr>animationFrame := Some 2\<rparr>)
                            = ([GetByteFrequencyData, RequestAnimationFrame], s4)"
    by (cases "updateFrequencyData (frame_at 1110 [analyser_128]) (s2\<lparr>animationFrame := Some 2\<rparr>)")
       simp
  have now: "\<And>t as. dateNow (frame_at t as) = t" by (simp add: frame_at_def)
  show ?thesis
    by (simp add: u1 u2 u3 u4 sample_times_def now)
qed

text \<open>
  Claim C4, as stated, at two analyzers that receive the same sample in the same frame:
  one has smoothed values 15 from an earlier frame, the other is new. The data they
  expose afterwards differ (27.75 against 15 at index 0).
\<close>

theorem exposed_data_history_counterexample:
  "getFrequencyData (snd (updateFrequencyData (frame_at 2000 [analyser_128]) running_state))
   \<noteq> getFrequencyData (snd (updateFrequencyData (frame_at 2000 [analyser_128]) fresh_state))"
proof -
  have fresh: "fresh_state = \<lparr>frequencyData = replicate 128 0, smoothedFrequencyData = replicate 128 0,
        animationFrame = None, isAnalyzing = True, lastUpdateTime = 0,
        actualFFTSize = 256, actualSampleRate = 48000, onUpdateCallback = None\<rparr>"
    by (simp add: fresh_state_def constructor_def updateAnalyserProperties_def analyser_128_def Let_def)
  have a: "getFrequencyData (snd (updateFrequencyData (frame_at 2000 [analyser_128]) running_state)) ! 0
           = 27.75"
    by (subst update_sampled [where analyser = analyser_128 and others = "[]"])
       (simp_all add: updateInterval_def same_length_def running_state_def analyser_128_def
          frame_at_def rounded_smoothing_100_15 getFrequencyData_def)
  have b: "getFrequencyData (snd (updateFrequencyData (frame_at 2000 [analyser_128]) fresh_state)) ! 0
           = 15"
    unfolding fresh
    by (subst update_sampled [where analyser = analyser_128 and others = "[]"])
       (simp_all add: updateInterval_def same_length_def analyser_128_def
          frame_at_def rounded_smoothing_100_0 getFrequencyData_def)
  show ?thesis
  proof
    assume "getFrequencyData (snd (updateFrequencyData (frame_at 2000 [analyser_128]) running_state))
      = getFrequencyData (snd (updateFrequencyData (frame_at 2000 [analyser_128]) fresh_state))"
    with a b show False by simp
  qed
qed

text \<open>
  Claim C4, amended. After an update step of a running analyzer that passes the throttle
  and finds an analyser, the raw byte array is that frame's sample, so it is the same in
  two runs that receive the same sample, whatever the earlier frames were. The smoothed
  data that \<^verbatim>\<open>getFrequencyData\<close> exposes is a function of that frame's sample and of
  the smoothed data before the step: two runs that receive the same sample expose equal
  data when their smoothed data were equal before.
\<close>

theorem frequency_data_from_sample:
  assumes "isAnalyzing s1" and "isAnalyzing s2"
    and "updateInterval \<le> dateNow env1 - lastUpdateTime s1"
    and "updateInterval \<le> dateNow env2 - lastUpdateTime s2"
    and "getAnalysers env1 = a1 # others1" and "getAnalysers env2 = a2 # others2"
    and "map (byteFrequencyData a1) [0..<frequencyBinCount a1]
         = map (byteFrequencyData a2) [0..<frequencyBinCount a2]"
    and "same_length s1" and "same_length s2"
  shows "frequencyData (snd (updateFrequencyData env1 s1))
           = map (byteFrequencyData a1) [0..<frequencyBinCount a1]
     \<and> frequencyData (snd (updateFrequencyData env2 s2))
           = frequencyData (snd (updateFrequencyData env1 s1))
     \<and> (smoothedFrequencyData s1 = smoothedFrequencyData s2 \<longrightarrow>
          getFrequencyData (snd (updateFrequencyData env1 s1))
            = getFrequencyData (snd (updateFrequencyData env2 s2)))"
proof -
  have n: "frequencyBinCount a1 = frequencyBinCount a2"
    using arg_cong [OF assms(7), of length] by simp
  have bytes: "\<And>i. i < frequencyBinCount a2 \<Longrightarrow> byteFrequencyData a1 i = byteFrequencyData a2 i"
    using assms(7) n by (simp add: list_eq_iff_nth_eq)
  have u1: "snd (updateFrequencyData env1 s1) = snd (updateFrequencyData env1 s1)" ..
  note r1 = update_sampled [OF assms(1) assms(3) assms(5) assms(8)]
  note r2 = update_sampled [OF assms(2) assms(4) assms(6) assms(9)]
  have raw: "frequencyData (snd (updateFrequencyData env2 s2))
           = frequencyData (snd (updateFrequencyData env1 s1))"
    by (simp add: r1 r2 assms(7))
  have "getFrequencyData (snd (updateFrequencyData env1 s1))
            = getFrequencyData (snd (updateFrequencyData env2 s2))"
    if eq: "smoothedFrequencyData s1 = smoothedFrequencyData s2"
  proof -
    have len: "length (frequencyData s1) = length (frequencyData s2)"
      using assms(8,9) eq by (simp add: same_length_def)
    show ?thesis
      by (simp add: r1 r2 getFrequencyData_def n len eq bytes)
  qed
  with raw show ?thesis by (simp add: r1)
qed

theorem frequency_data_from_sample_witness:
  "isAnalyzing running_state
   \<and> isAnalyzing (running_state\<lparr>frequencyData := replicate 128 7, lastUpdateTime := 0\<rparr>)
   \<and> updateInterval \<le> dateNow (frame_at 2000 [analyser_128]) - lastUpdateTime running_state
   \<and> updateInterval \<le> dateNow (frame_at 3000 [analyser_128\<lparr>sampleRate := 44100\<rparr>])
         - lastUpdateTime (running_state\<lparr>frequencyData := replicate 128 7, lastUpdateTime := 0\<rparr>)
   \<and> map (byteFrequencyData analyser_128) [0..<frequencyBinCount analyser_128]
       = map (byteFrequencyData (analyser_128\<lparr>sampleRate := 44100\<rparr>))
           [0..<frequencyBinCount (analyser_128\<lparr>sampleRate := 44100\<rparr>)]
   \<and> same_length running_state
   \<and> same_length (running_state\<lparr>frequencyData := replicate 128 7, lastUpdateTime := 0\<rparr>)
   \<and> smoothedFrequencyData running_state
       = smoothedFrequencyData (running_state\<lparr>frequencyData := replicate 128 7, lastUpdateTime := 0\<rparr>)
   \<and> frequencyData (snd (updateFrequencyData (frame_at 3000 [analyser_128\<lparr>sampleRate := 44100\<rparr>])
          (running_state\<lparr>frequencyData := replicate 128 7, lastUpdateTime := 0\<rparr>)))
       = frequencyData (snd (updateFrequencyData (frame_at 2000 [analyser_128]) running_state))
   \<and> getFrequencyData (snd (updateFrequencyData (frame_at 2000 [analyser_128]) running_state))
       = getFrequencyData (snd (updateFrequencyData (frame_at 3000 [analyser_128\<lparr>sampleRate := 44100\<rparr>])
          (running_state\<lparr>frequencyData := replicate 128 7, lastUpdateTime := 0\<rparr>)))"
proof -
  let ?s2 = "running_state\<lparr>frequencyData := replicate 128 7, lastUpdateTime := 0\<rparr>"
  let ?a2 = "analyser_128\<lparr>sampleRate := 44100\<rparr>"
  have h1: "isAnalyzing running_state" and h2: "isAnalyzing ?s2"
    by (simp_all add: running_state_def)
  have h3: "updateInterval \<le> dateNow (frame_at 2000 [analyser_128]) - lastUpdateTime running_state"
    and h4: "updateInterval \<le> dateNow (frame_at 3000 [?a2]) - lastUpdateTime ?s2"
    by (simp_all add: running_state_def frame_at_def updateInterval_def)
  have h5: "getAnalysers (frame_at 2000 [analyser_128]) = analyser_128 # []"
    and h6: "getAnalysers (frame_at 3000 [?a2]) = ?a2 # []"
    by (simp_all add: frame_at_def)
  have h7: "map (byteFrequencyData analyser_128) [0..<frequencyBinCount analyser_128]
       = map (byteFrequencyData ?a2) [0..<frequencyBinCount ?a2]"
    by simp
  have h8: "same_length running_state" and h9: "same_length ?s2"
    by (simp_all add: running_state_def same_length_def)
  have h10: "smoothedFrequencyData running_state = smoothedFrequencyData ?s2" by simp
  from frequency_data_from_sample [OF h1 h2 h3 h4 h5 h6 h7 h8 h9] h1 h2 h3 h4 h7 h8 h9 h10
  show ?thesis by blast
qed


section \<open>The error log\<close>

lemma logError_eq:
  "logError env entry key storedLog =
     storedLog(key \<mapsto> drop (length (entries_of storedLog key) + 1 - 250)
                          (entries_of storedLog key @ [as_stored env entry]))"
  by (simp add: logError_def entries_of_def as_stored_def maxLogLength_def Let_def)

lemma str_includes_sublist: "str_includes str a \<longleftrightarrow> sublist a str"
  by (induction str) (simp_all add: sublist_Cons_right)

text \<open>
  Claim C5. Whatever the key and the log stored before, after \<^verbatim>\<open>logError\<close> the log
  stored under the key has at most 250 entries: it is the stored log with the new entry
  appended, less as many of the oldest entries as exceed 250, so that the new entry is
  the last and, when the bound is exceeded, exactly the 250 most recent remain.
\<close>

theorem logError_bounded:
  "length (entries_of (logError env entry key storedLog) key) \<le> 250
   \<and> length (entries_of (logError env entry key storedLog) key)
       = min 250 (length (entries_of storedLog key) + 1)
   \<and> entries_of (logError env entry key storedLog) key
       = drop (length (entries_of storedLog key) + 1 - 250)
           (entries_of storedLog key @ [as_stored env entry])
   \<and> last (entries_of (logError env entry key storedLog) key) = as_stored env entry"
proof -
  have eq: "entries_of (logError env entry key storedLog) key
       = drop (length (entries_of storedLog key) + 1 - 250)
           (entries_of storedLog key @ [as_stored env entry])"
    by (simp add: logError_eq entries_of_def)
  have len: "length (entries_of (logError env entry key storedLog) key)
       = min 250 (length (entries_of storedLog key) + 1)"
    unfolding eq by simp
  have "last (entries_of (logError env entry key storedLog) key) = as_stored env entry"
    unfolding eq by (simp add: last_drop)
  with eq len show ?thesis by simp
qed

text \<open>A full log of 250 entries loses its oldest entry to the new one.\<close>

lemma logError_example:
  "entries_of (logError example_env (example_entry\<lparr>message := ''new''\<rparr>) Key_renderer
                 [Key_renderer \<mapsto> replicate 250 example_entry]) Key_renderer
   = replicate 249 example_entry @ [example_entry\<lparr>message := ''new''\<rparr>]"
  by (simp add: logError_def entries_of_def maxLogLength_def example_env_def Let_def)

text \<open>
  Claim C6. The listener for uncaught exceptions leaves the error log as it is when the
  message of the exception contains an entry of \<open>ERROR_FILTER\<close>, and otherwise appends
  the entry made by \<^verbatim>\<open>createLog\<close> to the log under the key \<^verbatim>\<open>main\<close>, within
  the bound of 250 entries.
\<close>

theorem uncaughtException_filtered:
  "uncaughtException env err storedLog =
     (if list_ex (str_includes (err_message err)) ERROR_FILTER
      then storedLog
      else storedLog(Key_main \<mapsto>
             drop (length (entries_of storedLog Key_main) + 1 - 250)
               (entries_of storedLog Key_main @ [as_stored env (createLog env err)])))"
  by (simp add: uncaughtException_def ERROR_FILTER_def logError_eq)

theorem uncaughtException_filtered_witness:
  "uncaughtException example_env
      \<lparr>err_message = ''ENOENT: no such file or directory, open a.txt'', err_stack = None\<rparr>
      Map.empty = Map.empty
   \<and> uncaughtException example_env \<lparr>err_message = ''boom'', err_stack = None\<rparr> Map.empty
       = [Key_main \<mapsto> [\<lparr>time = 1700000000000, os = ''linux'', version = ''1.4.0'',
                          type = ''Uncaught Exception'', source = ''See stack'',
                          message = ''boom'', stack = None, dev = False\<rparr>]]"
  using uncaughtException_filtered [of example_env
          "\<lparr>err_message = ''ENOENT: no such file or directory, open a.txt'', err_stack = None\<rparr>"
          Map.empty]
        uncaughtException_filtered [of example_env "\<lparr>err_message = ''boom'', err_stack = None\<rparr>"
          Map.empty]
  by (simp add: ERROR_FILTER_def entries_of_def as_stored_def createLog_def example_env_def)

section \<open>Screen capture\<close>

lemma fold_snoc_map: "fold (\<lambda>a acc. acc @ [f a]) xs init = init @ map f xs"
  by (induction xs arbitrary: init) simp_all

lemma fold_snoc_filter:
  "fold (\<lambda>a acc. if P a then acc @ [f a] else acc) xs init = init @ map f (filter P xs)"
  by (induction xs arbitrary: init) simp_all

lemma output_windows:
  "map Some (fold (\<lambda>output acc. case output of Some w \<Rightarrow> acc @ [w] | None \<Rightarrow> acc) outputs init)
   = map Some init @ filter (\<lambda>output. output \<noteq> None) outputs"
  by (induction outputs arbitrary: init) (auto split: option.splits)

lemma find_list_ex: "(case find P xs of Some _ \<Rightarrow> a | None \<Rightarrow> b) = (if list_ex P xs then a else b)"
  by (induction xs) simp_all

lemma fold_find_snoc:
  "fold (\<lambda>window acc.
           case find (Q window) sources of Some _ \<Rightarrow> acc | None \<Rightarrow> acc @ [f window]) ws init
   = init @ map f (filter (\<lambda>window. \<not> list_ex (Q window) sources) ws)"
  by (induction ws arbitrary: init) (simp_all add: find_list_ex)

lemma addFreeShowWindows_eq:
  "addFreeShowWindows env screens sources
   = screens @ map window_entry (windows_not_captured env sources)"
proof -
  have "addFreeShowWindows env screens sources
        = screens @ map (\<lambda>window. \<lparr>entry_name = map_option getTitle window,
                                      entry_id = map_option getMediaSourceId window\<rparr>)
            (filter (\<lambda>window. \<not> list_ex (\<lambda>a. Some (source_id a) = map_option getMediaSourceId window) sources)
               (mainWindow env # map Some
                  (fold (\<lambda>output acc. case output of Some w \<Rightarrow> acc @ [w] | None \<Rightarrow> acc)
                     (getAllOutputs env) [])))"
    unfolding addFreeShowWindows_def Let_def by (rule fold_find_snoc)
  also have "\<dots> = screens @ map window_entry (windows_not_captured env sources)"
    unfolding windows_not_captured_def output_windows window_entry_def [abs_def] by simp
  finally show ?thesis .
qed

text \<open>
  Claim C7. The promise of \<^verbatim>\<open>getScreens\<close> is never rejected. When
  \<^verbatim>\<open>desktopCapturer.getSources\<close> fails, the error is written to the console and the
  promise resolves with the empty list; when it succeeds, the promise resolves with one
  entry per captured source, in order, followed for the type \<^verbatim>\<open>window\<close> by the
  application's own windows whose media source id no captured source has. The handlers
  \<^verbatim>\<open>GET_SCREENS\<close> and \<^verbatim>\<open>GET_WINDOWS\<close> are this function at the two types.
\<close>

theorem getScreens_resolves:
  "getScreens t env =
     (case getSources env t of
        Inl err \<Rightarrow> ([ConsoleError ''Could not get screens:'' err], Resolved [])
      | Inr sources \<Rightarrow>
          ([], Resolved (map source_entry sources
                         @ (if t = Window
                            then map window_entry (windows_not_captured env sources)
                            else []))))
   \<and> (\<exists>screens. snd (getScreens t env) = Resolved screens)
   \<and> mainResponses GET_SCREENS env = getScreens Screen env
   \<and> mainResponses GET_WINDOWS env = getScreens Window env"
proof -
  have src: "\<And>sources. fold (\<lambda>source acc.
                                acc @ [\<lparr>entry_name = Some (source_name source),
                                        entry_id = Some (source_id source)\<rparr>]) sources []
              = map source_entry sources"
    using fold_snoc_map [of "\<lambda>source. \<lparr>entry_name = Some (source_name source),
                                        entry_id = Some (source_id source)\<rparr>" _ "[]"]
    by (simp add: source_entry_def [abs_def])
  have eq: "getScreens t env =
     (case getSources env t of
        Inl err \<Rightarrow> ([ConsoleError ''Could not get screens:'' err], Resolved [])
      | Inr sources \<Rightarrow>
          ([], Resolved (map source_entry sources
                         @ (if t = Window
                            then map window_entry (windows_not_captured env sources)
                            else []))))"
    by (simp add: getScreens_def Let_def src addFreeShowWindows_eq split: sum.splits)
  have "\<exists>screens. snd (getScreens t env) = Resolved screens"
    unfolding eq by (simp split: sum.splits)
  with eq show ?thesis by simp
qed


section \<open>Lookup of one frequency\<close>

lemma getFrequencyAmplitude_clamped:
  assumes "smoothedFrequencyData s \<noteq> []"
  shows "getFrequencyAmplitude analysers s freq =
         smoothedFrequencyData s !
           nat (max 0 (min (int (length (smoothedFrequencyData s)) - 1)
                         (frequencyToBin analysers s freq)))"
proof -
  let ?sm = "smoothedFrequencyData s"
  let ?b = "frequencyToBin analysers s freq"
  have len: "0 < length ?sm" using assms by simp
  consider "?b \<le> 0" | "0 < ?b" "int (length ?sm) - 1 \<le> ?b" | "0 < ?b" "?b < int (length ?sm) - 1"
    by linarith
  then show ?thesis
  proof cases
    case 1
    then show ?thesis using len
      by (simp add: getFrequencyAmplitude_def Let_def at_or_zero_def max_def min_def)
  next
    case 2
    then show ?thesis using len
      by (simp add: getFrequencyAmplitude_def Let_def at_or_zero_def max_def min_def)
  next
    case 3
    then show ?thesis using len
      by (simp add: getFrequencyAmplitude_def Let_def at_or_zero_def max_def min_def)
  qed
qed

text \<open>
  Claim C10. The bin index of \<^verbatim>\<open>frequencyToBin\<close> is an integer, so its floor and its
  ceiling coincide and the fraction of the interpolation is 0: for every frequency, on
  an array that is not empty and with a positive sample rate, \<^verbatim>\<open>getFrequencyAmplitude\<close>
  is the smoothed value at the index \<open>round (f * fftSize / sampleRate)\<close> clamped into
  the array, with the analyser's FFT size and sample rate when there is an analyser
  and the stored ones when there is none.
\<close>

theorem getFrequencyAmplitude_nearest_bin:
  assumes "smoothedFrequencyData s \<noteq> []"
  shows "(0 < sampleRate analyser \<longrightarrow>
            getFrequencyAmplitude (analyser # others) s freq
              = nearest_bin_lookup (smoothedFrequencyData s) freq (fftSize analyser)
                  (sampleRate analyser))
     \<and> (0 < actualSampleRate s \<longrightarrow>
            getFrequencyAmplitude [] s freq
              = nearest_bin_lookup (smoothedFrequencyData s) freq (actualFFTSize s)
                  (actualSampleRate s))
     \<and> \<lfloor>real_of_int (frequencyToBin analysers s freq)\<rfloor>
         = \<lceil>real_of_int (frequencyToBin analysers s freq)\<rceil>
     \<and> real_of_int (frequencyToBin analysers s freq)
         - real_of_int \<lfloor>real_of_int (frequencyToBin analysers s freq)\<rfloor> = 0"
  by (simp add: getFrequencyAmplitude_clamped [OF assms] nearest_bin_lookup_def
      frequencyToBin_def)

theorem getFrequencyAmplitude_nearest_bin_witness:
  "smoothedFrequencyData running_state \<noteq> []
   \<and> 0 < sampleRate analyser_128
   \<and> 0 < actualSampleRate running_state
   \<and> getFrequencyAmplitude [analyser_128] running_state 440 = 15
   \<and> nearest_bin_lookup (smoothedFrequencyData running_state) 440 256 48000 = 15
   \<and> getFrequencyAmplitude [] running_state 440 = 15"
proof -
  have h: "smoothedFrequencyData running_state \<noteq> []" by (simp add: running_state_def)
  have r: "math_round (440 * 256 / 48000) = 2" by (simp add: math_round_def)
  have n: "nearest_bin_lookup (smoothedFrequencyData running_state) 440 256 48000 = 15"
    by (simp add: nearest_bin_lookup_def r running_state_def)
  from getFrequencyAmplitude_nearest_bin [OF h, of analyser_128 "[]" 440 "[]"] h n show ?thesis
    by (simp add: analyser_128_def running_state_def)
qed

section \<open>Bounds of the bars\<close>

lemma at_or_zero_bounds:
  assumes "list_all (\<lambda>v. 0 \<le> v \<and> v \<le> m) sm" and "0 \<le> m"
  shows "0 \<le> at_or_zero sm i \<and> at_or_zero sm i \<le> m"
  using assms by (auto simp: at_or_zero_def list_all_length)

lemma weighted_step_bounds:
  fixes v w ws tw m :: real
  assumes "0 \<le> v \<and> v \<le> m" and "0 < w" and "0 \<le> ws" and "ws \<le> m * tw"
  shows "0 \<le> ws + v * w" and "ws + v * w \<le> m * (tw + w)"
proof -
  have "0 \<le> v * w" using assms(1,2) by simp
  then show "0 \<le> ws + v * w" using assms(3) by simp
  have "v * w \<le> m * w" using assms(1,2) by (simp add: mult_right_mono)
  then show "ws + v * w \<le> m * (tw + w)" using assms(4) by (simp add: algebra_simps)
qed

lemma weighted_loop_bounds:
  assumes "list_all (\<lambda>v. 0 \<le> v \<and> v \<le> m) sm" and "0 < res"
    and "0 \<le> ws" and "ws \<le> m * tw"
    and "weighted_loop sm lo hi res totalBins endBin bin (ws, tw) = (ws', tw')"
    and "0 \<le> m"
  shows "0 \<le> ws' \<and> ws' \<le> m * tw'"
  using assms
proof (induction sm lo hi res totalBins endBin bin "(ws, tw)" arbitrary: ws tw
    rule: weighted_loop.induct)
  case (1 sm lo hi res totalBins endBin bin ws tw)
  note b = at_or_zero_bounds [OF "1.prems"(1) "1.prems"(6), of bin]
  note unfold = weighted_loop.simps [of sm lo hi res totalBins endBin bin ws tw]
  let ?ov = "max 0 (min hi ((real_of_int bin + 1) * res) - max lo (real_of_int bin * res))"
  show ?case
  proof (cases "bin \<le> endBin \<and> \<not> totalBins \<le> bin")
    case False
    with "1.prems"(5) have "(ws, tw) = (ws', tw')"
      unfolding unfold by (simp split: if_splits)
    with "1.prems"(3,4) show ?thesis by simp
  next
    case True
    show ?thesis
    proof (cases "0 < ?ov")
      case pos: True
      have w: "0 < ?ov / res" using pos "1.prems"(2) by (rule divide_pos_pos)
      have i1: "0 \<le> ws + at_or_zero sm bin * (?ov / res)"
        and i2: "ws + at_or_zero sm bin * (?ov / res) \<le> m * (tw + ?ov / res)"
        using weighted_step_bounds [OF b w "1.prems"(3,4)] by simp_all
      from True pos "1.prems"(5)
      have "weighted_loop sm lo hi res totalBins endBin (bin + 1)
              (ws + at_or_zero sm bin * (?ov / res), tw + ?ov / res) = (ws', tw')"
        unfolding unfold by (simp add: Let_def)
      from "1.hyps"(1) [OF _ _ refl refl refl refl refl _ refl refl "1.prems"(1,2) i1 i2 this
          "1.prems"(6)]
        True pos
      show ?thesis by simp
    next
      case npos: False
      from True npos "1.prems"(5)
      have "weighted_loop sm lo hi res totalBins endBin (bin + 1) (ws, tw) = (ws', tw')"
        unfolding unfold by (simp add: Let_def)
      from "1.hyps"(2) [OF _ _ refl refl refl refl refl _ "1.prems"(1,2,3,4) this "1.prems"(6)]
        True npos
      show ?thesis by simp
    qed
  qed
qed

lemma interpolation_bounds:
  fixes a b f m :: real
  assumes "0 \<le> a \<and> a \<le> m" and "0 \<le> b \<and> b \<le> m" and "0 \<le> f" and "f \<le> 1"
  shows "0 \<le> a + (b - a) * f \<and> a + (b - a) * f \<le> m"
proof -
  define p q where "p = (1 - f) * a" and "q = f * b"
  define fm where "fm = f * m"
  have eq: "a + (b - a) * f = p + q" by (simp add: p_def q_def algebra_simps)
  have "0 \<le> p" and "0 \<le> q" using assms by (simp_all add: p_def q_def)
  moreover have "p \<le> (1 - f) * m" unfolding p_def
    by (rule mult_left_mono) (use assms in simp_all)
  then have "p \<le> m - fm" by (simp add: fm_def algebra_simps)
  moreover have "q \<le> fm" unfolding q_def fm_def
    by (rule mult_left_mono) (use assms in simp_all)
  ultimately show ?thesis unfolding eq by simp
qed

text \<open>With every smoothed value between 0 and \<open>m\<close>, so is the value for a range.\<close>

lemma getAveragedFrequencyAmplitude_bounds:
  assumes "list_all (\<lambda>v. 0 \<le> v \<and> v \<le> m) (smoothedFrequencyData s)"
    and "0 < res" and "0 \<le> lo" and "0 \<le> m"
  shows "0 \<le> getAveragedFrequencyAmplitude s lo hi res totalBins
       \<and> getAveragedFrequencyAmplitude s lo hi res totalBins \<le> m"
proof -
  let ?sm = "smoothedFrequencyData s"
  let ?startBin = "max 0 \<lfloor>lo / res\<rfloor>"
  let ?endBin = "min (totalBins - 1) \<lceil>hi / res\<rceil>"
  note b = at_or_zero_bounds [OF assms(1) assms(4)]
  show ?thesis
  proof (cases "?startBin = ?endBin")
    case True
    define k where "k = ?startBin"
    have "0 \<le> lo / res" using assms(2,3) by simp
    then have sb: "k = \<lfloor>lo / res\<rfloor>" by (simp add: k_def)
    have f: "0 \<le> lo / res - real_of_int k" "lo / res - real_of_int k \<le> 1"
      unfolding sb by linarith+
    have e: "?endBin = k" using True by (simp only: k_def)
    have val: "getAveragedFrequencyAmplitude s lo hi res totalBins =
        (if k < totalBins - 1
         then at_or_zero ?sm k + (at_or_zero ?sm (k + 1) - at_or_zero ?sm k) * (lo / res - real_of_int k)
         else at_or_zero ?sm k)"
      unfolding getAveragedFrequencyAmplitude_def Let_def k_def [symmetric]
      by (simp only: e if_True simp_thms)
    from interpolation_bounds [OF b [of k] b [of "k + 1"] f] b [of k]
    show ?thesis unfolding val by (simp del: at_or_zero_def)
  next
    case False
    obtain ws tw where loop: "weighted_loop ?sm lo hi res totalBins ?endBin ?startBin (0, 0) = (ws, tw)"
      by (cases "weighted_loop ?sm lo hi res totalBins ?endBin ?startBin (0, 0)")
    from weighted_loop_bounds [OF assms(1,2) _ _ loop assms(4)] have ws: "0 \<le> ws" "ws \<le> m * tw"
      by simp_all
    have res: "getAveragedFrequencyAmplitude s lo hi res totalBins = (if tw > 0 then ws / tw else 0)"
      using False loop by (simp add: getAveragedFrequencyAmplitude_def Let_def)
    show ?thesis
    proof (cases "tw > 0")
      case True
      then have "0 \<le> ws / tw" and "ws / tw \<le> m"
        using ws by (simp_all add: pos_divide_le_eq)
      with True res show ?thesis by simp
    next
      case False
      with res assms(4) show ?thesis by simp
    qed
  qed
qed

lemma pow10_pos: "0 < pow10 y"
  by (simp add: pow10_def)

lemma spectrumBar_bounds:
  assumes "list_all (\<lambda>v. 0 \<le> v \<and> v \<le> m) (smoothedFrequencyData s)"
    and "0 < res" and "0 \<le> m" and "m \<le> 255"
  shows "0 \<le> amplitude (spectrumBar s canvasHeight barWidth maxDisplayFreq res i)"
    and "amplitude (spectrumBar s canvasHeight barWidth maxDisplayFreq res i) \<le> m / 255"
    and "0 \<le> height (spectrumBar s canvasHeight barWidth maxDisplayFreq res i)"
    and "0 \<le> canvasHeight \<Longrightarrow>
         height (spectrumBar s canvasHeight barWidth maxDisplayFreq res i) \<le> 0.9 * canvasHeight"
proof -
  define lo where "lo = pow10 (log10 minFreq + real i / real numBars * (log10 maxDisplayFreq - log10 minFreq))"
  define hi where "hi = (if i = numBars - 1 then maxDisplayFreq
      else pow10 (log10 minFreq + (real i + 1) / real numBars * (log10 maxDisplayFreq - log10 minFreq)))"
  define amp where "amp = getAveragedFrequencyAmplitude s lo hi res (int (length (smoothedFrequencyData s)))"
  define la where "la = (if amp / 255 > 0 then log10 (amp / 255 * 9 + 1) else 0)"
  have lo: "0 \<le> lo" using pow10_pos [of "log10 minFreq + real i / real numBars * (log10 maxDisplayFreq - log10 minFreq)"]
    unfolding lo_def by simp
  have amp: "0 \<le> amp" "amp \<le> m"
    using getAveragedFrequencyAmplitude_bounds [OF assms(1,2) lo assms(3)] unfolding amp_def
    by simp_all
  have amp255: "amp \<le> 255" using amp(2) assms(4) by simp
  have a: "amplitude (spectrumBar s canvasHeight barWidth maxDisplayFreq res i) = amp / 255"
    and h: "height (spectrumBar s canvasHeight barWidth maxDisplayFreq res i) = max 0 (la * canvasHeight * 0.9)"
    by (simp_all add: spectrumBar_def Let_def amp_def lo_def hi_def la_def)
  show "0 \<le> amplitude (spectrumBar s canvasHeight barWidth maxDisplayFreq res i)"
    and "amplitude (spectrumBar s canvasHeight barWidth maxDisplayFreq res i) \<le> m / 255"
    unfolding a using amp by (simp_all add: divide_right_mono)
  have la: "0 \<le> la \<and> la \<le> 1"
  proof (cases "amp / 255 > 0")
    case True
    have "1 \<le> amp / 255 * 9 + 1" and "amp / 255 * 9 + 1 \<le> 10" using amp(1) amp255 by simp_all
    then have "0 \<le> log 10 (amp / 255 * 9 + 1)" and "log 10 (amp / 255 * 9 + 1) \<le> 1"
      by (simp_all add: log_le_one_cancel_iff)
    with True show ?thesis by (simp add: la_def log10_def)
  next
    case False
    then show ?thesis by (simp add: la_def)
  qed
  show "0 \<le> height (spectrumBar s canvasHeight barWidth maxDisplayFreq res i)"
    unfolding h by simp
  show "height (spectrumBar s canvasHeight barWidth maxDisplayFreq res i) \<le> 0.9 * canvasHeight"
    if nonneg: "0 \<le> canvasHeight"
  proof -
    define t where "t = la * canvasHeight"
    have "t \<le> 1 * canvasHeight" unfolding t_def
      by (rule mult_right_mono) (use la nonneg in simp_all)
    then have "max 0 (t * 0.9) \<le> 0.9 * canvasHeight" using nonneg by simp
    then show ?thesis unfolding h t_def .
  qed
qed

lemma generateSpectrumBars_eq:
  "generateSpectrumBars analysers s canvasWidth canvasHeight =
     map (spectrumBar s canvasHeight (canvasWidth / real numBars)
            (fst (displayParams analysers s))
            (fst (snd (displayParams analysers s)) / real (snd (snd (displayParams analysers s)))))
       [0..<numBars]"
  by (simp add: generateSpectrumBars_def Let_def split: prod.splits)

lemma positive_rates_resolution:
  "positive_rates analysers s \<Longrightarrow>
   0 < fst (snd (displayParams analysers s)) / real (snd (snd (displayParams analysers s)))"
  by (simp add: positive_rates_def displayParams_def split: list.splits)

lemma list_all_below_255:
  "list_all below_255 sm \<Longrightarrow> list_all (\<lambda>v. 0 \<le> v \<and> v \<le> 255 - 1 / 65536) sm"
  by (simp add: below_255_def [abs_def])

text \<open>In exact arithmetic the amplitudes stay a 16711680th below 1, which leaves the
  rounding of the doubles room.\<close>

lemma generateSpectrumBars_amplitude_margin:
  assumes "list_all below_255 (smoothedFrequencyData s)"
    and "positive_rates analysers s"
    and "bar \<in> set (generateSpectrumBars analysers s canvasWidth canvasHeight)"
  shows "amplitude bar \<le> 1 - 1 / 16711680"
proof -
  from assms(3) obtain i where
    "bar = spectrumBar s canvasHeight (canvasWidth / real numBars)
            (fst (displayParams analysers s))
            (fst (snd (displayParams analysers s)) / real (snd (snd (displayParams analysers s)))) i"
    unfolding generateSpectrumBars_eq by auto
  moreover have "(0::real) \<le> 255 - 1 / 65536" and "(255::real) - 1 / 65536 \<le> 255"
    by simp_all
  note spectrumBar_bounds(2) [OF list_all_below_255 [OF assms(1)]
      positive_rates_resolution [OF assms(2)] this,
      where canvasHeight = canvasHeight and barWidth = "canvasWidth / real numBars"
        and maxDisplayFreq = "fst (displayParams analysers s)" and i = i]
  ultimately show ?thesis by simp
qed





section \<open>The weighted average of a range\<close>

lemma weighted_loop_sum:
  assumes "endBin < totalBins"
  shows "weighted_loop sm lo hi res totalBins endBin bin (ws, tw) =
     (ws + (\<Sum>b\<in>{bin..endBin}. at_or_zero sm b * (overlap lo hi res b / res)),
      tw + (\<Sum>b\<in>{bin..endBin}. overlap lo hi res b / res))"
  using assms
proof (induction sm lo hi res totalBins endBin bin "(ws, tw)" arbitrary: ws tw
    rule: weighted_loop.induct)
  case (1 sm lo hi res totalBins endBin bin ws tw)
  note unfold = weighted_loop.simps [of sm lo hi res totalBins endBin bin ws tw]
  show ?case
  proof (cases "bin \<le> endBin")
    case False
    then show ?thesis unfolding unfold by simp
  next
    case True
    then have inside: "\<not> totalBins \<le> bin" using "1.prems" by simp
    have split: "{bin..endBin} = insert bin {bin + 1..endBin}" using True by auto
    have sums:
      "(\<Sum>b\<in>{bin..endBin}. at_or_zero sm b * (overlap lo hi res b / res))
         = at_or_zero sm bin * (overlap lo hi res bin / res)
           + (\<Sum>b\<in>{bin + 1..endBin}. at_or_zero sm b * (overlap lo hi res b / res))"
      "(\<Sum>b\<in>{bin..endBin}. overlap lo hi res b / res)
         = overlap lo hi res bin / res + (\<Sum>b\<in>{bin + 1..endBin}. overlap lo hi res b / res)"
      unfolding split by simp_all
    have nonneg: "0 \<le> overlap lo hi res bin" by (simp add: overlap_def)
    show ?thesis
    proof (cases "0 < overlap lo hi res bin")
      case pos: True
      have pos': "0 < max 0 (min hi ((real_of_int bin + 1) * res) - max lo (real_of_int bin * res))"
        using pos unfolding overlap_def .
      have "weighted_loop sm lo hi res totalBins endBin bin (ws, tw) =
            weighted_loop sm lo hi res totalBins endBin (bin + 1)
              (ws + at_or_zero sm bin * (overlap lo hi res bin / res),
               tw + overlap lo hi res bin / res)"
        unfolding unfold overlap_def Let_def using True inside pos' by (simp only: if_True if_False)
      also have "\<dots> =
        (ws + at_or_zero sm bin * (overlap lo hi res bin / res)
            + (\<Sum>b\<in>{bin + 1..endBin}. at_or_zero sm b * (overlap lo hi res b / res)),
         tw + overlap lo hi res bin / res
            + (\<Sum>b\<in>{bin + 1..endBin}. overlap lo hi res b / res))"
        unfolding overlap_def
        by (rule "1.hyps"(1) [OF True inside refl refl refl refl refl pos' refl refl "1.prems",
              unfolded overlap_def])
      finally show ?thesis unfolding sums by (simp add: add.assoc)
    next
      case npos: False
      with nonneg have zero: "overlap lo hi res bin = 0" by simp
      have npos': "\<not> 0 < max 0 (min hi ((real_of_int bin + 1) * res) - max lo (real_of_int bin * res))"
        using npos unfolding overlap_def .
      have "weighted_loop sm lo hi res totalBins endBin bin (ws, tw) =
            weighted_loop sm lo hi res totalBins endBin (bin + 1) (ws, tw)"
        unfolding unfold Let_def using True inside npos' by (simp only: if_True if_False)
      also have "\<dots> =
        (ws + (\<Sum>b\<in>{bin + 1..endBin}. at_or_zero sm b * (overlap lo hi res b / res)),
         tw + (\<Sum>b\<in>{bin + 1..endBin}. overlap lo hi res b / res))"
        unfolding overlap_def
        by (rule "1.hyps"(2) [OF True inside refl refl refl refl refl npos' "1.prems",
              unfolded overlap_def])
      finally show ?thesis unfolding sums zero by simp
    qed
  qed
qed

lemma overlap_nonneg: "0 \<le> overlap lo hi res b"
  by (simp add: overlap_def)

lemma overlap_zero_below:
  assumes "0 < res" and "b < \<lfloor>lo / res\<rfloor>"
  shows "overlap lo hi res b = 0"
proof -
  have "real_of_int (b + 1) \<le> real_of_int \<lfloor>lo / res\<rfloor>" using assms(2) by linarith
  also have "\<dots> \<le> lo / res" by (rule of_int_floor_le)
  finally have "(real_of_int b + 1) * res \<le> lo"
    using assms(1) by (simp add: pos_le_divide_eq)
  then show ?thesis by (simp add: overlap_def)
qed

lemma overlap_zero_above:
  assumes "0 < res" and "\<lceil>hi / res\<rceil> \<le> b"
  shows "overlap lo hi res b = 0"
proof -
  have "hi / res \<le> real_of_int \<lceil>hi / res\<rceil>" by (rule le_of_int_ceiling)
  also have "\<dots> \<le> real_of_int b" using assms(2) by simp
  finally have "hi \<le> real_of_int b * res"
    using assms(1) by (simp add: pos_divide_le_eq)
  then show ?thesis by (simp add: overlap_def)
qed

lemma sum_over_bins:
  fixes g :: "int \<Rightarrow> real"
  assumes "0 < res" and "\<And>b. overlap lo hi res b = 0 \<Longrightarrow> g b = 0"
  shows "(\<Sum>b\<in>{max 0 \<lfloor>lo / res\<rfloor>..min (int n - 1) \<lceil>hi / res\<rceil>}. g b) = (\<Sum>b<n. g (int b))"
proof -
  let ?S = "{max 0 \<lfloor>lo / res\<rfloor>..min (int n - 1) \<lceil>hi / res\<rceil>}"
  have outside: "g b = 0" if "b \<in> {0..int n - 1} - ?S" for b
  proof -
    from that have "b < \<lfloor>lo / res\<rfloor> \<or> \<lceil>hi / res\<rceil> \<le> b" by auto
    then have "overlap lo hi res b = 0"
      using overlap_zero_below [OF assms(1)] overlap_zero_above [OF assms(1)] by blast
    then show ?thesis by (rule assms(2))
  qed
  have "sum g ?S = sum g {0..int n - 1}"
    by (rule sum.mono_neutral_left) (use outside in auto)
  also have "{0..int n - 1} = int ` {..<n}"
  proof -
    have "int ` {0..<n} = {int 0..<int n}" by (rule image_int_atLeastLessThan)
    then show ?thesis by (auto simp: lessThan_atLeast0)
  qed
  also have "sum g (int ` {..<n}) = (\<Sum>b<n. g (int b))"
    by (simp add: sum.reindex)
  finally show ?thesis .
qed

lemma at_or_zero_inside: "b < length sm \<Longrightarrow> at_or_zero sm (int b) = sm ! b"
  by (simp add: at_or_zero_def)

lemma getAveragedFrequencyAmplitude_average:
  assumes "0 < res" and "0 \<le> lo" and "lo < hi"
  shows "getAveragedFrequencyAmplitude s lo hi res (int (length (smoothedFrequencyData s)))
         = overlap_weighted_average (smoothedFrequencyData s) lo hi res"
proof -
  let ?sm = "smoothedFrequencyData s"
  let ?n = "length ?sm"
  let ?startBin = "max 0 \<lfloor>lo / res\<rfloor>"
  let ?endBin = "min (int ?n - 1) \<lceil>hi / res\<rceil>"
  let ?total = "\<Sum>b<?n. overlap lo hi res (int b)"
  let ?weighted = "\<Sum>b<?n. ?sm ! b * overlap lo hi res (int b)"
  have spec: "overlap_weighted_average ?sm lo hi res = (if ?total > 0 then ?weighted / ?total else 0)"
    by (simp add: overlap_weighted_average_def Let_def)
  have "0 \<le> lo / res" using assms(1,2) by simp
  then have floor0: "0 \<le> \<lfloor>lo / res\<rfloor>" by simp
  have "lo / res < hi / res" using assms(1,3) by (simp add: divide_strict_right_mono)
  then have "real_of_int \<lfloor>lo / res\<rfloor> < real_of_int \<lceil>hi / res\<rceil>"
    using of_int_floor_le [of "lo / res"] le_of_int_ceiling [of "hi / res"] by linarith
  then have fc: "\<lfloor>lo / res\<rfloor> < \<lceil>hi / res\<rceil>" by simp
  show ?thesis
  proof (cases "?startBin = ?endBin")
    case True
    define k where "k = ?startBin"
    have e: "?endBin = k" using True by (simp only: k_def)
    have kf: "k = \<lfloor>lo / res\<rfloor>" using floor0 by (simp add: k_def)
    have kn: "k = int ?n - 1" using e fc kf by linarith
    have val: "getAveragedFrequencyAmplitude s lo hi res (int ?n) =
        (if k < int ?n - 1
         then at_or_zero ?sm k + (at_or_zero ?sm (k + 1) - at_or_zero ?sm k) * (lo / res - real_of_int k)
         else at_or_zero ?sm k)"
      unfolding getAveragedFrequencyAmplitude_def Let_def k_def [symmetric]
      by (simp only: e if_True simp_thms)
    obtain m where n: "?n = Suc m" and km: "k = int m"
      using kn floor0 kf by (cases ?n) simp_all
    have code: "getAveragedFrequencyAmplitude s lo hi res (int ?n) = ?sm ! m"
      unfolding val using kn km n by (simp add: at_or_zero_def)
    have below: "overlap lo hi res (int b) = 0" if "b < m" for b
      by (rule overlap_zero_below [OF assms(1)]) (use that km kf in simp)
    have "real_of_int k \<le> lo / res" and "lo / res < real_of_int k + 1"
      unfolding kf by linarith+
    then have "real m * res \<le> lo" and "lo < (real m + 1) * res"
      using assms(1) by (simp_all add: km pos_le_divide_eq pos_divide_less_eq)
    then have last_pos: "0 < overlap lo hi res (int m)"
      using assms(3) by (simp add: overlap_def)
    have total: "?total = overlap lo hi res (int m)"
      unfolding n using below by simp
    have weighted: "?weighted = ?sm ! m * overlap lo hi res (int m)"
      unfolding n using below by simp
    show ?thesis
      unfolding code spec total weighted using last_pos by simp
  next
    case False
    have less: "?endBin < int ?n" by simp
    have loop: "weighted_loop ?sm lo hi res (int ?n) ?endBin ?startBin (0, 0) =
       (\<Sum>b\<in>{?startBin..?endBin}. at_or_zero ?sm b * (overlap lo hi res b / res),
        \<Sum>b\<in>{?startBin..?endBin}. overlap lo hi res b / res)"
      using weighted_loop_sum [OF less, of ?sm lo hi res ?startBin 0 0] by simp
    have tw: "(\<Sum>b\<in>{?startBin..?endBin}. overlap lo hi res b / res) = ?total / res"
      using sum_over_bins [OF assms(1), of lo hi "\<lambda>b. overlap lo hi res b / res" ?n]
      by (simp add: sum_divide_distrib)
    have "(\<Sum>b\<in>{?startBin..?endBin}. at_or_zero ?sm b * (overlap lo hi res b / res))
          = (\<Sum>b<?n. at_or_zero ?sm (int b) * (overlap lo hi res (int b) / res))"
      by (rule sum_over_bins [OF assms(1)]) simp
    also have "\<dots> = (\<Sum>b<?n. ?sm ! b * overlap lo hi res (int b) / res)"
      by (rule sum.cong) (simp_all add: at_or_zero_inside)
    finally have ws: "(\<Sum>b\<in>{?startBin..?endBin}. at_or_zero ?sm b * (overlap lo hi res b / res))
          = ?weighted / res"
      by (simp add: sum_divide_distrib)
    have code: "getAveragedFrequencyAmplitude s lo hi res (int ?n) =
        (if ?total / res > 0 then (?weighted / res) / (?total / res) else 0)"
      using False by (simp only: getAveragedFrequencyAmplitude_def Let_def loop tw ws if_False
          prod.case)
    show ?thesis
      unfolding code spec using assms(1) by (simp add: zero_less_divide_iff)
  qed
qed

section \<open>The bars\<close>

lemma bar_frequency_pos: "0 < bar_frequency m i"
  by (simp add: bar_frequency_def)

lemma bar_frequency_first: "bar_frequency m 0 = 20"
  by (simp add: bar_frequency_def)

lemma bar_frequency_last: "0 < m \<Longrightarrow> bar_frequency m 100 = m"
  by (simp add: bar_frequency_def)

lemma bar_frequency_mono:
  assumes "20 < m" and "i < j"
  shows "bar_frequency m i < bar_frequency m j"
proof -
  have "log 10 20 < log 10 m" using assms(1) by simp
  then have d: "0 < log 10 m - log 10 20" by simp
  have "real i / 100 < real j / 100" using assms(2) by simp
  then have "real i / 100 * (log 10 m - log 10 20) < real j / 100 * (log 10 m - log 10 20)"
    using d by (rule mult_strict_right_mono)
  then show ?thesis by (simp add: bar_frequency_def)
qed

lemma displayParams_eq:
  "displayParams analysers s =
     (max_display_freq analysers,
      (case analysers of [] \<Rightarrow> actualSampleRate s | analyser # _ \<Rightarrow> sampleRate analyser),
      (case analysers of [] \<Rightarrow> actualFFTSize s | analyser # _ \<Rightarrow> fftSize analyser))"
  by (simp add: displayParams_def max_display_freq_def maxFreq_def split: list.splits)

lemma generateSpectrumBars_nth:
  assumes "i < 100"
  shows "generateSpectrumBars analysers s canvasWidth canvasHeight ! i =
         spectrumBar s canvasHeight (canvasWidth / 100) (max_display_freq analysers)
           (frequency_resolution analysers s) i"
  using assms
  by (simp add: generateSpectrumBars_eq numBars_def displayParams_eq frequency_resolution_def
      split: list.splits)

lemma generateSpectrumBars_length:
  "length (generateSpectrumBars analysers s canvasWidth canvasHeight) = 100"
  by (simp add: generateSpectrumBars_eq numBars_def)

lemma positive_rates_frequency_resolution:
  "positive_rates analysers s \<Longrightarrow> 0 < frequency_resolution analysers s"
  by (simp add: positive_rates_def frequency_resolution_def split: list.splits)

lemma spectrumBar_frequency:
  "frequency (spectrumBar s canvasHeight barWidth m res i) = bar_frequency m i"
  by (simp add: spectrumBar_def Let_def bar_frequency_def pow10_def log10_def numBars_def
      minFreq_def)

lemma spectrumBar_position:
  "x (spectrumBar s canvasHeight barWidth m res i) = real i * barWidth"
  "width (spectrumBar s canvasHeight barWidth m res i) = barWidth - 1"
  by (simp_all add: spectrumBar_def Let_def)

lemma spectrumBar_amplitude:
  assumes "0 < res" and "20 < m" and "i < 100"
  shows "amplitude (spectrumBar s canvasHeight barWidth m res i) =
         overlap_weighted_average (smoothedFrequencyData s)
           (bar_frequency m i) (bar_frequency m (i + 1)) res / 255"
proof -
  let ?next = "if i = numBars - 1 then m
     else pow10 (log10 minFreq + (real i + 1) / real numBars * (log10 m - log10 minFreq))"
  have nxt: "?next = bar_frequency m (i + 1)"
  proof (cases "i = 99")
    case True
    then show ?thesis using bar_frequency_last [of m] assms(2) by (simp add: numBars_def)
  next
    case False
    then show ?thesis
      by (simp add: numBars_def bar_frequency_def pow10_def log10_def minFreq_def add.commute)
  qed
  have "amplitude (spectrumBar s canvasHeight barWidth m res i) =
        getAveragedFrequencyAmplitude s (bar_frequency m i) ?next res
          (int (length (smoothedFrequencyData s))) / 255"
    by (simp add: spectrumBar_def Let_def bar_frequency_def pow10_def log10_def numBars_def
        minFreq_def)
  also have "\<dots> = overlap_weighted_average (smoothedFrequencyData s)
           (bar_frequency m i) (bar_frequency m (i + 1)) res / 255"
    unfolding nxt
    using getAveragedFrequencyAmplitude_average [OF assms(1), of "bar_frequency m i"
        "bar_frequency m (i + 1)" s]
      bar_frequency_pos [of m i] bar_frequency_mono [OF assms(2), of i "i + 1"]
    by simp
  finally show ?thesis .
qed

text \<open>
  Claim C2, amended. For every canvas width and height, with a positive sample rate and
  FFT size, \<^verbatim>\<open>generateSpectrumBars\<close> returns exactly 100 bars, and bar \<open>i\<close> has
  \<open>x = i * canvasWidth / 100\<close>, \<open>width = canvasWidth / 100 - 1\<close> and the frequency
  \<open>10 ^ (log10 20 + (i / 100) * (log10 maxDisplayFreq - log10 20))\<close>, where
  \<open>maxDisplayFreq\<close> is 20000, or half the sample rate of the analyser when that is less.
  When \<open>maxDisplayFreq\<close> is above 20 Hz, the amplitude of bar \<open>i\<close> is one 255th of the
  overlap-weighted average of the smoothed bin values over the range from the frequency
  of bar \<open>i\<close> to the frequency of bar \<open>i + 1\<close> (0 when no bin overlaps the range).
\<close>

theorem generateSpectrumBars_bucketing:
  assumes "positive_rates analysers s" and "i < 100"
  shows "length (generateSpectrumBars analysers s canvasWidth canvasHeight) = 100
     \<and> x (generateSpectrumBars analysers s canvasWidth canvasHeight ! i)
         = real i * canvasWidth / 100
     \<and> width (generateSpectrumBars analysers s canvasWidth canvasHeight ! i)
         = canvasWidth / 100 - 1
     \<and> frequency (generateSpectrumBars analysers s canvasWidth canvasHeight ! i)
         = bar_frequency (max_display_freq analysers) i
     \<and> (20 < max_display_freq analysers \<longrightarrow>
          amplitude (generateSpectrumBars analysers s canvasWidth canvasHeight ! i)
            = overlap_weighted_average (smoothedFrequencyData s)
                (bar_frequency (max_display_freq analysers) i)
                (bar_frequency (max_display_freq analysers) (i + 1))
                (frequency_resolution analysers s) / 255)"
  unfolding generateSpectrumBars_nth [OF assms(2)] generateSpectrumBars_length
    spectrumBar_frequency spectrumBar_position
  using spectrumBar_amplitude [OF positive_rates_frequency_resolution [OF assms(1)] _ assms(2)]
  by simp

lemma overlap_weighted_average_constant:
  assumes "\<And>b. b < length sm \<Longrightarrow> sm ! b = c"
    and "0 < (\<Sum>b<length sm. overlap lo hi res (int b))"
  shows "overlap_weighted_average sm lo hi res = c"
proof -
  have "(\<Sum>b<length sm. sm ! b * overlap lo hi res (int b))
        = (\<Sum>b<length sm. c * overlap lo hi res (int b))"
    by (rule sum.cong) (simp_all add: assms(1))
  also have "\<dots> = c * (\<Sum>b<length sm. overlap lo hi res (int b))"
    by (simp add: sum_distrib_left)
  finally show ?thesis using assms(2) by (simp add: overlap_weighted_average_def Let_def)
qed

text \<open>In the example state every smoothed value is 15, and so is the weighted average over
  the range of the first bar, which overlaps bin 0.\<close>

lemma example_first_bar_average:
  "overlap_weighted_average (smoothedFrequencyData running_state)
     (bar_frequency 20000 0) (bar_frequency 20000 1) (48000 / 256) = 15"
proof (rule overlap_weighted_average_constant)
  show "smoothedFrequencyData running_state ! b = 15"
    if "b < length (smoothedFrequencyData running_state)" for b
    using that by (simp add: running_state_def)
  have up: "20 < bar_frequency 20000 1"
    using bar_frequency_mono [of 20000 0 1] by (simp add: bar_frequency_first)
  have "0 < overlap (bar_frequency 20000 0) (bar_frequency 20000 1) (48000 / 256) (int 0)"
    using up by (simp add: overlap_def bar_frequency_first)
  also have "\<dots> \<le> (\<Sum>b<length (smoothedFrequencyData running_state).
                   overlap (bar_frequency 20000 0) (bar_frequency 20000 1) (48000 / 256) (int b))"
    by (rule member_le_sum) (simp_all add: overlap_nonneg running_state_def)
  finally show "0 < (\<Sum>b<length (smoothedFrequencyData running_state).
                   overlap (bar_frequency 20000 0) (bar_frequency 20000 1) (48000 / 256) (int b))" .
qed

lemma example_parameters:
  "max_display_freq [analyser_128] = 20000"
  "frequency_resolution [analyser_128] running_state = 48000 / 256"
  "positive_rates [analyser_128] running_state"
  by (simp_all add: max_display_freq_def frequency_resolution_def positive_rates_def
      analyser_128_def)

theorem generateSpectrumBars_bucketing_witness:
  "positive_rates [analyser_128] running_state
   \<and> (0::nat) < 100
   \<and> 20 < max_display_freq [analyser_128]
   \<and> length (generateSpectrumBars [analyser_128] running_state 800 200) = 100
   \<and> x (generateSpectrumBars [analyser_128] running_state 800 200 ! 0) = 0
   \<and> width (generateSpectrumBars [analyser_128] running_state 800 200 ! 0) = 7
   \<and> frequency (generateSpectrumBars [analyser_128] running_state 800 200 ! 0) = 20
   \<and> amplitude (generateSpectrumBars [analyser_128] running_state 800 200 ! 0) = 15 / 255"
proof -
  have h2: "(0::nat) < 100" by simp
  from generateSpectrumBars_bucketing [OF example_parameters(3) h2, of 800 200]
  show ?thesis
    by (simp add: example_parameters bar_frequency_first
        example_first_bar_average [simplified bar_frequency_first, simplified])
qed

text \<open>
  Claim C2, as stated, at the first bar of the example state, where every smoothed value
  is 15: the weighted average over the range from the frequency of bar 0 to that of bar 1
  is 15, and the amplitude of the bar is 15 / 255.
\<close>

theorem bar_amplitude_normalised_counterexample:
  "amplitude (generateSpectrumBars [analyser_128] running_state 800 200 ! 0)
   \<noteq> overlap_weighted_average (smoothedFrequencyData running_state)
       (frequency (generateSpectrumBars [analyser_128] running_state 800 200 ! 0))
       (frequency (generateSpectrumBars [analyser_128] running_state 800 200 ! 1))
       (sampleRate analyser_128 / real (fftSize analyser_128))"
proof -
  have a: "amplitude (generateSpectrumBars [analyser_128] running_state 800 200 ! 0) = 15 / 255"
    unfolding generateSpectrumBars_nth [of 0, simplified]
    using spectrumBar_amplitude [of "48000 / 256" 20000 0 running_state 200 "800 / 100"]
    by (simp add: example_parameters bar_frequency_first
        example_first_bar_average [simplified bar_frequency_first, simplified])
  have f: "frequency (generateSpectrumBars [analyser_128] running_state 800 200 ! 0) = bar_frequency 20000 0"
    "frequency (generateSpectrumBars [analyser_128] running_state 800 200 ! 1) = bar_frequency 20000 1"
    by (simp_all add: generateSpectrumBars_nth spectrumBar_frequency example_parameters)
  have r: "sampleRate analyser_128 / real (fftSize analyser_128) = 48000 / 256"
    by (simp add: analyser_128_def)
  show ?thesis unfolding a f r example_first_bar_average by simp
qed

end
